theory Spec2Isabelle
  imports Complex_Main
begin

section \<open>Tensors\<close>

text \<open>
  A tensor is stored as the framework stores a contiguous one: its shape and its elements
  in row-major order. Elements are real numbers: floating-point rounding, overflow and
  infinities are idealised away, and the only not-a-number that exact arithmetic can still
  produce here (the mean of no elements, \<open>0 / 0\<close>) is written out as \<open>NaN\<close>.
\<close>

record tensor =
  shape :: "nat list"
  data :: "real list"

definition wf_tensor :: "tensor \<Rightarrow> bool" where
  "wf_tensor t \<longleftrightarrow> length (data t) = prod_list (shape t)"

datatype scalar = Val real | NaN

datatype error = ShapeMismatch | ValueError | IndexError | TypeError | AttributeError

text \<open>
  Broadcasting of two shapes: the shorter one is padded with leading dimensions of size 1;
  two sizes are compatible when they are equal or one of them is 1. Incompatible sizes
  raise.
\<close>

definition pad :: "nat \<Rightarrow> nat list \<Rightarrow> nat list" where
  "pad r s = replicate (r - length s) 1 @ s"

fun broadcast_dims :: "nat list \<Rightarrow> nat list \<Rightarrow> nat list option" where
  "broadcast_dims [] [] = Some []"
| "broadcast_dims (a # as) (b # bs) =
     (if a = b \<or> b = 1 then map_option ((#) a) (broadcast_dims as bs)
      else if a = 1 then map_option ((#) b) (broadcast_dims as bs)
      else None)"
| "broadcast_dims _ _ = None"

definition broadcast_shapes :: "nat list \<Rightarrow> nat list \<Rightarrow> nat list option" where
  "broadcast_shapes s1 s2 =
     (let r = max (length s1) (length s2) in broadcast_dims (pad r s1) (pad r s2))"

text \<open>
  \<open>expand s d xs\<close> lays the elements \<open>xs\<close> of a tensor of shape \<open>s\<close> out at the
  broadcast shape \<open>d\<close> (of the same rank): a dimension of equal size is traversed block by
  block, a dimension of size 1 is repeated.
\<close>

fun expand :: "nat list \<Rightarrow> nat list \<Rightarrow> real list \<Rightarrow> real list" where
  "expand (s # ss) (d # ds) xs =
     (let k = prod_list ss in
      if s = d then concat (map (\<lambda>i. expand ss ds (take k (drop (i * k) xs))) [0..<s])
      else concat (replicate d (expand ss ds xs)))"
| "expand _ _ xs = xs"

definition expand_to :: "nat list \<Rightarrow> tensor \<Rightarrow> real list" where
  "expand_to d t = expand (pad (length d) (shape t)) d (data t)"

section \<open>FocalLoss\<close>

definition logsigmoid :: "real \<Rightarrow> real" where
  "logsigmoid x = ln (1 / (1 + exp (- x)))"

text \<open>
  Lines 15 to 20 of \<open>FocalLoss.forward\<close> are element-wise tensor operations, so the
  per-element loss tensor is the element-wise image of the (broadcast) logits and targets
  under the following function, whose bindings are the source's.
\<close>

definition focal_elem :: "real \<Rightarrow> real \<Rightarrow> real \<Rightarrow> real" where
  "focal_elem gamma logit target =
     (let max_val = max (- logit) 0;
          loss = logit - logit * target + max_val
                 + ln (exp (- max_val) + exp (- logit - max_val));
          invprobs = logsigmoid (- logit * (target * 2 - 1))
      in exp (invprobs * gamma) * loss)"

text \<open>\<open>loss.sum(dim=1)\<close> on a 2-dimensional tensor of shape \<open>[n, m]\<close>.\<close>

definition sum_dim1 :: "tensor \<Rightarrow> tensor" where
  "sum_dim1 t =
     (let n = shape t ! 0; m = shape t ! 1 in
      \<lparr>shape = [n], data = map (\<lambda>i. sum_list (take m (drop (i * m) (data t)))) [0..<n]\<rparr>)"

text \<open>\<open>loss.mean()\<close>: the mean of all elements; of no elements it is not a number.\<close>

definition mean :: "real list \<Rightarrow> scalar" where
  "mean xs = (if xs = [] then NaN else Val (sum_list xs / real (length xs)))"

text \<open>The per-element loss tensor (lines 14 to 20), at the broadcast shape.\<close>

definition elem_loss :: "real \<Rightarrow> tensor \<Rightarrow> tensor \<Rightarrow> error + tensor" where
  "elem_loss gamma logit target =
     (case broadcast_shapes (shape logit) (shape target) of
        None \<Rightarrow> Inl ShapeMismatch
      | Some s \<Rightarrow>
          Inr \<lparr>shape = s,
               data = map2 (focal_elem gamma) (expand_to s logit) (expand_to s target)\<rparr>)"

definition forward :: "real \<Rightarrow> tensor \<Rightarrow> tensor \<Rightarrow> error + scalar" where
  "forward gamma logit target =
     (case elem_loss gamma logit target of
        Inl e \<Rightarrow> Inl e
      | Inr loss \<Rightarrow>
          (let loss = (if length (shape loss) = 2 then sum_dim1 loss else loss)
           in Inr (mean (data loss))))"

text \<open>
  The reference the loss is compared with: the binary cross-entropy of the sigmoid of a
  logit in closed form, and its mean over all elements of two tensors of the same shape
  (the framework's own function raises when the shapes differ).
\<close>

definition sigmoid :: "real \<Rightarrow> real" where
  "sigmoid x = 1 / (1 + exp (- x))"

definition bce :: "real \<Rightarrow> real \<Rightarrow> real" where
  "bce x t = - (t * ln (sigmoid x) + (1 - t) * ln (1 - sigmoid x))"

definition bce_with_logits_mean :: "tensor \<Rightarrow> tensor \<Rightarrow> error + scalar" where
  "bce_with_logits_mean logit target =
     (if shape target \<noteq> shape logit then Inl ValueError
      else Inr (mean (map2 bce (data logit) (data target))))"

text \<open>Negating every logit, and flipping every target.\<close>

definition neg :: "tensor \<Rightarrow> tensor" where
  "neg t = t\<lparr>data := map uminus (data t)\<rparr>"

definition flip :: "tensor \<Rightarrow> tensor" where
  "flip t = t\<lparr>data := map (\<lambda>x. 1 - x) (data t)\<rparr>"

text \<open>A size \<open>x\<close> can be broadcast to the size \<open>y\<close>.\<close>

definition compat :: "nat \<Rightarrow> nat \<Rightarrow> bool" where
  "compat x y \<longleftrightarrow> x = y \<or> x = 1"

section \<open>The training driver\<close>

text \<open>
  A batch is the list of tensors the data loader yields. A model returns a tensor or a
  tuple of tensors.
\<close>

type_synonym batch = "tensor list"

datatype "output" = Single tensor | Multi "tensor list"

text \<open>
  The loss object: its class name (what \<open>criterion.__class__.__name__\<close> reads) and what
  calling it on a prediction and a target returns.
\<close>

record criterion =
  class_name :: string
  crit_call :: "output \<Rightarrow> tensor \<Rightarrow> error + scalar"

text \<open>
  The model, the optimizer and the scheduler are external objects. Their mutable state
  (parameters, optimizer and scheduler internals) is a value of type \<open>'m\<close>. The model is
  called in training or in evaluation mode; \<open>loss.backward()\<close> followed by
  \<open>optimizer.step()\<close> updates the state from the batch loss as a function of the state;
  \<open>isinstance(scheduler, CosineAnnealingLR)\<close> is a fixed property of the scheduler.
\<close>

record 'm learner =
  model_call :: "bool \<Rightarrow> 'm \<Rightarrow> tensor \<Rightarrow> error + output"
  optimizer_step :: "('m \<Rightarrow> error + scalar) \<Rightarrow> 'm \<Rightarrow> 'm"
  lr_of :: "'m \<Rightarrow> real"
  is_cosine :: bool
  scheduler_step :: "real option \<Rightarrow> 'm \<Rightarrow> 'm"

definition bind :: "error + 'a \<Rightarrow> ('a \<Rightarrow> error + 'b) \<Rightarrow> error + 'b" where
  "bind x f = (case x of Inl e \<Rightarrow> Inl e | Inr v \<Rightarrow> f v)"

text \<open>Arithmetic on loss values: not-a-number propagates.\<close>

fun sadd :: "scalar \<Rightarrow> scalar \<Rightarrow> scalar" where
  "sadd (Val a) (Val b) = Val (a + b)"
| "sadd _ _ = NaN"

fun smul :: "real \<Rightarrow> scalar \<Rightarrow> scalar" where
  "smul c (Val a) = Val (c * a)"
| "smul c NaN = NaN"

text \<open>
  The element at index \<open>(i, j, k)\<close> of a tensor of at least two dimensions, where
  \<open>k\<close> runs over the flattened dimensions after the second.
\<close>

definition inner :: "tensor \<Rightarrow> nat" where
  "inner t = prod_list (drop 2 (shape t))"

definition at3 :: "tensor \<Rightarrow> nat \<Rightarrow> nat \<Rightarrow> nat \<Rightarrow> real" where
  "at3 t i j k = data t ! ((i * (shape t ! 1) + j) * inner t + k)"

text \<open>\<open>t[i]\<close>: the \<open>i\<close>-th sub-tensor along the first dimension.\<close>

definition select0 :: "tensor \<Rightarrow> nat \<Rightarrow> tensor" where
  "select0 t i =
     (let k = prod_list (tl (shape t)) in
      \<lparr>shape = tl (shape t), data = take k (drop (i * k) (data t))\<rparr>)"

text \<open>
  \<open>pred0, pred_qual = model(im)\<close>: a tuple must have two elements; a tensor is iterated
  along its first dimension, which must have size 2.
\<close>

fun unpack_output :: "output \<Rightarrow> error + tensor \<times> tensor" where
  "unpack_output (Multi [a, b]) = Inr (a, b)"
| "unpack_output (Multi _) = Inl ValueError"
| "unpack_output (Single t) =
     (if shape t = [] then Inl TypeError
      else if hd (shape t) = 2 then Inr (select0 t 0, select0 t 1)
      else Inl ValueError)"

text \<open>The index of the first maximal element of a non-empty list.\<close>

definition argmax_list :: "real list \<Rightarrow> nat" where
  "argmax_list xs = length (takeWhile (\<lambda>x. x < Max (set xs)) xs)"

text \<open>\<open>t0.argmax(1)\<close>: the indices of the maxima along dimension 1.\<close>

definition argmax1 :: "tensor \<Rightarrow> error + tensor" where
  "argmax1 t =
     (if length (shape t) < 2 \<or> shape t ! 1 = 0 then Inl IndexError
      else Inr \<lparr>shape = shape t ! 0 # drop 2 (shape t),
                data = concat (map (\<lambda>i. map (\<lambda>k.
                          real (argmax_list (map (\<lambda>j. at3 t i j k) [0..<shape t ! 1])))
                          [0..<inner t]) [0..<shape t ! 0])\<rparr>)"

text \<open>\<open>softmax(pred0, dim=1)\<close>.\<close>

definition softmax1 :: "tensor \<Rightarrow> error + tensor" where
  "softmax1 t =
     (if length (shape t) < 2 then Inl IndexError
      else Inr (t\<lparr>data := map (\<lambda>idx.
                  exp (data t ! idx)
                  / sum_list (map (\<lambda>j. exp (at3 t (idx div (shape t ! 1 * inner t)) j
                                               (idx mod inner t))) [0..<shape t ! 1]))
                  [0..<length (data t)]\<rparr>))"

text \<open>
  \<open>a[:, 0]\<close> on the array of a tensor, flattened as \<open>np.append\<close> flattens it: it
  raises on fewer than two dimensions and on an empty second dimension.
\<close>

definition col0 :: "tensor \<Rightarrow> error + real list" where
  "col0 t =
     (if length (shape t) < 2 \<or> shape t ! 1 = 0 then Inl IndexError
      else Inr (concat (map (\<lambda>i. take (inner t) (drop (i * (shape t ! 1) * inner t) (data t)))
                  [0..<shape t ! 0])))"

subsection \<open>validate\<close>

definition validate :: "real list \<Rightarrow> real list \<Rightarrow> (real list \<Rightarrow> real list \<Rightarrow> 'r) \<Rightarrow> 'r" where
  "validate predicts labels single_metric = single_metric labels predicts"

subsection \<open>train_epoch\<close>

text \<open>The auxiliary loss \<open>qal_loss = FocalLoss()\<close>, with the default gamma.\<close>

definition qal_loss :: "tensor \<Rightarrow> tensor \<Rightarrow> error + scalar" where
  "qal_loss = forward 2"

text \<open>
  The loss of one batch (lines 41 to 58), as a function of the learner state: the batch is
  unpacked, the model is called in training mode, the criterion is applied, and the
  auxiliary term is added when \<open>use_qual\<close> is set.
\<close>

definition batch_loss :: "'m learner \<Rightarrow> criterion \<Rightarrow> bool \<Rightarrow> 'm \<Rightarrow> batch \<Rightarrow> error + scalar" where
  "batch_loss L criterion use_qual \<theta> batch =
     (if \<not> use_qual then
        (case batch of
           [im, t0] \<Rightarrow>
             bind (model_call L True \<theta> im) (\<lambda>pred0.
             (if class_name criterion = ''CrossEntropyLoss''
              then bind (argmax1 t0) (crit_call criterion pred0)
              else crit_call criterion pred0 t0))
         | _ \<Rightarrow> Inl ValueError)
      else
        (case batch of
           [im, t0, t1] \<Rightarrow>
             bind (model_call L True \<theta> im) (\<lambda>out.
             bind (unpack_output out) (\<lambda>(pred0, pred_qual).
             bind (if class_name criterion = ''CrossEntropyLoss''
                   then bind (argmax1 t0) (crit_call criterion (Single pred0))
                   else crit_call criterion (Single pred0) t0) (\<lambda>loss.
             bind (qal_loss pred_qual t1) (\<lambda>loss1.
             Inr (sadd loss (smul 0.2 loss1))))))
         | _ \<Rightarrow> Inl ValueError))"

text \<open>
  One pass over the loader. The result is the learner state after the last batch and the
  loss values of the batches in order (the values \<open>loss.item()\<close> summed for the progress
  display); an error of any batch ends the pass.
\<close>

fun train_epoch ::
  "'m learner \<Rightarrow> 'm \<Rightarrow> batch list \<Rightarrow> criterion \<Rightarrow> bool \<Rightarrow> error + 'm \<times> scalar list" where
  "train_epoch L \<theta> [] criterion use_qual = Inr (\<theta>, [])"
| "train_epoch L \<theta> (batch # loader) criterion use_qual =
     (case batch_loss L criterion use_qual \<theta> batch of
        Inl e \<Rightarrow> Inl e
      | Inr loss \<Rightarrow>
          (case train_epoch L
                  (optimizer_step L (\<lambda>\<theta>'. batch_loss L criterion use_qual \<theta>' batch) \<theta>)
                  loader criterion use_qual of
             Inl e \<Rightarrow> Inl e
           | Inr (\<theta>', losses) \<Rightarrow> Inr (\<theta>', loss # losses)))"

subsection \<open>valid_epoch\<close>

text \<open>
  The body of the validation loop (lines 81 to 92) for one batch: the derived scores
  \<open>pred0\<close> and the derived ground truth \<open>1 - t0\<close>.
\<close>

definition valid_batch ::
  "'m learner \<Rightarrow> 'm \<Rightarrow> criterion \<Rightarrow> bool \<Rightarrow> batch \<Rightarrow> error + real list \<times> real list" where
  "valid_batch L \<theta> criterion use_qual batch =
     (case batch of
        [im, t0] \<Rightarrow>
          bind (col0 t0) (\<lambda>t0.
          bind (model_call L False \<theta> im) (\<lambda>out.
          bind (if \<not> use_qual then Inr out
                else bind (unpack_output out) (\<lambda>(pred0, _). Inr (Single pred0))) (\<lambda>pred0.
          bind (case pred0 of
                  Multi _ \<Rightarrow> Inl AttributeError
                | Single p \<Rightarrow>
                    (if class_name criterion = ''CrossEntropyLoss''
                     then bind (softmax1 p) col0
                     else col0 p)) (\<lambda>pred0.
          Inr (map (\<lambda>x. 1 - x) pred0, map (\<lambda>x. 1 - x) t0)))))
      | _ \<Rightarrow> Inl ValueError)"

fun valid_batches ::
  "'m learner \<Rightarrow> 'm \<Rightarrow> criterion \<Rightarrow> bool \<Rightarrow> batch list \<Rightarrow> real list \<times> real list
   \<Rightarrow> error + real list \<times> real list" where
  "valid_batches L \<theta> criterion use_qual [] acc = Inr acc"
| "valid_batches L \<theta> criterion use_qual (batch # loader) (preds0, true0) =
     (case valid_batch L \<theta> criterion use_qual batch of
        Inl e \<Rightarrow> Inl e
      | Inr (pred0, t0) \<Rightarrow>
          valid_batches L \<theta> criterion use_qual loader (preds0 @ pred0, true0 @ t0))"

definition valid_epoch ::
  "'m learner \<Rightarrow> 'm \<Rightarrow> batch list \<Rightarrow> (real list \<Rightarrow> real list \<Rightarrow> 'r) \<Rightarrow> criterion \<Rightarrow> bool
   \<Rightarrow> error + 'r" where
  "valid_epoch L \<theta> loader single_metric criterion use_qual =
     (case valid_batches L \<theta> criterion use_qual loader ([], []) of
        Inl e \<Rightarrow> Inl e
      | Inr (preds0, true0) \<Rightarrow> Inr (validate preds0 true0 single_metric))"

subsection \<open>train\<close>

text \<open>The attributes of the configuration object that \<open>train\<close> reads.\<close>

record config =
  experiments_root :: string
  experiment_name :: string
  loss :: criterion
  single_metric :: "real list \<Rightarrow> real list \<Rightarrow> real"
  n_epochs :: int
  use_qual :: bool

text \<open>\<open>os.path.join\<close> of two components, and the decimal digits of an epoch number.\<close>

definition path_join :: "string \<Rightarrow> string \<Rightarrow> string" where
  "path_join a b =
     (if b \<noteq> [] \<and> hd b = CHR ''/'' then b
      else if a = [] \<or> last a = CHR ''/'' then a @ b
      else a @ ''/'' @ b)"

function str_nat :: "nat \<Rightarrow> string" where
  "str_nat n =
     (if n < 10 then [''0123456789'' ! n]
      else str_nat (n div 10) @ [''0123456789'' ! (n mod 10)])"
  by pat_completeness auto
termination
  by (relation "measure id") auto

declare str_nat.simps [simp del]

definition experiment_path :: "config \<Rightarrow> string" where
  "experiment_path cfg = path_join (experiments_root cfg) (experiment_name cfg)"

definition models_path :: "config \<Rightarrow> string" where
  "models_path cfg = path_join (experiment_path cfg) ''models''"

definition log_path :: "config \<Rightarrow> string" where
  "log_path cfg = path_join (experiment_path cfg) (experiment_name cfg @ ''.txt'')"

definition epoch_path :: "config \<Rightarrow> nat \<Rightarrow> string" where
  "epoch_path cfg epoch = path_join (models_path cfg) (str_nat epoch @ ''.pth'')"

definition best_path :: "config \<Rightarrow> string" where
  "best_path cfg = path_join (models_path cfg) ''best.pth''"

text \<open>
  What a run does to the outside, in order: a call of \<open>scheduler.step\<close> with its
  argument (if any), a checkpoint written by \<open>torch.save\<close> at a path, a line appended by
  \<open>write2log\<close> to a file with the epoch, the metric and the learning rate.
\<close>

datatype 'm event =
  Step "real option"
| Saved string 'm
| Logged string nat real real

record 'm world =
  learner_state :: 'm
  max_score :: real
  events :: "'m event list"

text \<open>The body of the epoch loop (lines 119 to 133).\<close>

definition train_step ::
  "'m learner \<Rightarrow> batch list \<Rightarrow> batch list \<Rightarrow> config \<Rightarrow> nat \<Rightarrow> 'm world \<Rightarrow> error + 'm world" where
  "train_step L train_loader valid_loader cfg epoch w =
     (case train_epoch L (learner_state w) train_loader (loss cfg) (use_qual cfg) of
        Inl e \<Rightarrow> Inl e
      | Inr (\<theta>, _) \<Rightarrow>
     (case valid_epoch L \<theta> valid_loader (single_metric cfg) (loss cfg) (use_qual cfg) of
        Inl e \<Rightarrow> Inl e
      | Inr metric \<Rightarrow>
          (let tmp_lr = lr_of L \<theta>;
               arg = (if is_cosine L then None else Some metric);
               \<theta> = scheduler_step L arg \<theta>;
               saved = [Step arg, Saved (epoch_path cfg epoch) \<theta>];
               best = (if metric > max_score w then [Saved (best_path cfg) \<theta>] else []);
               logged = [Logged (log_path cfg) epoch metric tmp_lr]
           in Inr \<lparr>learner_state = \<theta>,
                   max_score = (if metric > max_score w then metric else max_score w),
                   events = events w @ saved @ best @ logged\<rparr>)))"

text \<open>
  The loop \<open>for epoch in range(n)\<close>: the world after \<open>n\<close> epochs is the body applied
  to the world after \<open>n - 1\<close> epochs. An error ends the run; what was written before the
  failed epoch stays.
\<close>

fun run_epochs ::
  "(nat \<Rightarrow> 'm world \<Rightarrow> error + 'm world) \<Rightarrow> nat \<Rightarrow> 'm world \<Rightarrow> 'm world \<times> error option" where
  "run_epochs body 0 w = (w, None)"
| "run_epochs body (Suc n) w =
     (case run_epochs body n w of
        (w', Some e) \<Rightarrow> (w', Some e)
      | (w', None) \<Rightarrow>
          (case body n w' of Inl e \<Rightarrow> (w', Some e) | Inr w'' \<Rightarrow> (w'', None)))"

definition train_upto ::
  "'m learner \<Rightarrow> 'm \<Rightarrow> batch list \<Rightarrow> batch list \<Rightarrow> config \<Rightarrow> nat \<Rightarrow> 'm world \<times> error option" where
  "train_upto L \<theta> train_loader valid_loader cfg n =
     run_epochs (train_step L train_loader valid_loader cfg) n
       \<lparr>learner_state = \<theta>, max_score = 0, events = []\<rparr>"

definition train ::
  "'m learner \<Rightarrow> 'm \<Rightarrow> batch list \<Rightarrow> batch list \<Rightarrow> config \<Rightarrow> 'm world \<times> error option" where
  "train L \<theta> train_loader valid_loader cfg =
     train_upto L \<theta> train_loader valid_loader cfg (nat (n_epochs cfg))"

text \<open>Reading a trace: the paths written, the metrics logged, the scheduler calls.\<close>

fun saved_paths :: "'m event list \<Rightarrow> string list" where
  "saved_paths [] = []"
| "saved_paths (Saved p c # evs) = p # saved_paths evs"
| "saved_paths (_ # evs) = saved_paths evs"

fun logged_metrics :: "'m event list \<Rightarrow> real list" where
  "logged_metrics [] = []"
| "logged_metrics (Logged p e m lr # evs) = m # logged_metrics evs"
| "logged_metrics (_ # evs) = logged_metrics evs"

fun logged_epochs :: "'m event list \<Rightarrow> nat list" where
  "logged_epochs [] = []"
| "logged_epochs (Logged p e m lr # evs) = e # logged_epochs evs"
| "logged_epochs (_ # evs) = logged_epochs evs"

fun step_calls :: "'m event list \<Rightarrow> real option list" where
  "step_calls [] = []"
| "step_calls (Step a # evs) = a # step_calls evs"
| "step_calls (_ # evs) = step_calls evs"

subsection \<open>A small run\<close>

text \<open>
  Concrete inputs on which the theorems below are instantiated: one training batch with a
  quality label, one validation batch with a one-hot label of class 1, a model that returns
  a fixed pair of predictions, and an optimizer that counts its steps.
\<close>

definition ex_im :: tensor where
  "ex_im = \<lparr>shape = [1, 1], data = [0]\<rparr>"

definition ex_t0 :: tensor where
  "ex_t0 = \<lparr>shape = [1, 2], data = [0, 1]\<rparr>"

definition ex_t1 :: tensor where
  "ex_t1 = \<lparr>shape = [1], data = [1]\<rparr>"

definition ex_pred :: tensor where
  "ex_pred = \<lparr>shape = [1, 2], data = [1 / 4, 3 / 4]\<rparr>"

definition ex_qual :: tensor where
  "ex_qual = \<lparr>shape = [1], data = [0]\<rparr>"

definition ex_learner :: "nat learner" where
  "ex_learner =
     \<lparr>model_call = (\<lambda>training \<theta> im. Inr (Multi [ex_pred, ex_qual])),
      optimizer_step = (\<lambda>f \<theta>. Suc \<theta>),
      lr_of = (\<lambda>\<theta>. 1 / 10),
      is_cosine = False,
      scheduler_step = (\<lambda>arg \<theta>. \<theta>)\<rparr>"

definition ex_bce :: criterion where
  "ex_bce = \<lparr>class_name = ''BCELoss'', crit_call = (\<lambda>pred target. Inr (Val 1))\<rparr>"

definition ex_ce :: criterion where
  "ex_ce = \<lparr>class_name = ''CrossEntropyLoss'',
            crit_call = (\<lambda>pred target. Inr (Val (sum_list (data target))))\<rparr>"

definition ex_config :: config where
  "ex_config =
     \<lparr>experiments_root = ''exp'', experiment_name = ''run'', loss = ex_bce,
      single_metric = (\<lambda>labels predicts. sum_list predicts), n_epochs = 2, use_qual = True\<rparr>"

definition ex_world :: "nat world" where
  "ex_world =
     \<lparr>learner_state = 2, max_score = 3 / 4,
      events = [Step (Some (3 / 4)), Saved ''exp/run/models/0.pth'' 1,
                Saved ''exp/run/models/best.pth'' 1, Logged ''exp/run/run.txt'' 0 (3 / 4) (1 / 10),
                Step (Some (3 / 4)), Saved ''exp/run/models/1.pth'' 2,
                Logged ''exp/run/run.txt'' 1 (3 / 4) (1 / 10)]\<rparr>"

definition ex_config_neg :: config where
  "ex_config_neg = ex_config\<lparr>single_metric := (\<lambda>labels predicts. - sum_list predicts)\<rparr>"

text \<open>Every tensor of a model output has as many elements as its shape says.\<close>

fun wf_output :: "output \<Rightarrow> bool" where
  "wf_output (Single t) = wf_tensor t"
| "wf_output (Multi ts) = list_all wf_tensor ts"

text \<open>
  A validation batch of two examples, of class 0 and of class 1, and a classifier that
  returns logits for them.
\<close>

definition ex_onehot :: tensor where
  "ex_onehot = \<lparr>shape = [2, 2], data = [1, 0, 0, 1]\<rparr>"

definition ex_logits :: tensor where
  "ex_logits = \<lparr>shape = [2, 2], data = [ln 3, 0, 0, ln 3]\<rparr>"

definition ex_classifier :: "nat learner" where
  "ex_classifier = ex_learner\<lparr>model_call := (\<lambda>training \<theta> im. Inr (Single ex_logits))\<rparr>"

section \<open>Properties of the tensor layout\<close>

lemma expand_map: "expand s d (map f xs) = map f (expand s d xs)"
proof (induction s d xs rule: expand.induct)
  case (1 s ss d ds xs)
  show ?case
  proof (cases "s = d")
    case True
    have "expand ss ds (take (prod_list ss) (drop (i * prod_list ss) (map f xs)))
          = map f (expand ss ds (take (prod_list ss) (drop (i * prod_list ss) xs)))"
      if "i < s" for i
      using "1.IH"(1) [OF refl True, of i] that by (simp add: take_map drop_map)
    then have "map (\<lambda>i. expand ss ds (take (prod_list ss) (drop (i * prod_list ss) (map f xs))))
                 [0..<s]
             = map (\<lambda>i. map f (expand ss ds (take (prod_list ss) (drop (i * prod_list ss) xs))))
                 [0..<s]"
      by (intro map_cong) auto
    then show ?thesis
      unfolding True by (simp only: expand.simps Let_def simp_thms if_True map_concat map_map comp_def)
  next
    case False
    with "1.IH"(2) [OF refl False] show ?thesis
      by (simp add: Let_def map_concat)
  qed
qed simp_all

lemma focal_elem_symmetric: "focal_elem gamma (- x) (1 - t) = focal_elem gamma x t"
proof -
  have a: "- (- x) * ((1 - t) * 2 - 1) = - x * (t * 2 - 1)"
    by (simp add: algebra_simps)
  have b: "- x - - x * (1 - t) + max x 0 + ln (exp (- max x 0) + exp (x - max x 0))
         = x - x * t + max (- x) 0 + ln (exp (- max (- x) 0) + exp (- x - max (- x) 0))"
  proof (cases "0 \<le> x")
    case True
    have "ln (exp (- x) + 1) = ln (exp (- x) * (1 + exp x))"
      by (simp add: algebra_simps flip: exp_add)
    also have "\<dots> = - x + ln (1 + exp x)"
      using add_pos_pos [of 1 "exp x"] by (simp add: ln_mult)
    finally show ?thesis using True
      by (simp add: max_def algebra_simps)
  next
    case False
    have "ln (exp x + 1) = ln (exp x * (1 + exp (- x)))"
      by (simp add: algebra_simps flip: exp_add)
    also have "\<dots> = x + ln (1 + exp (- x))"
      using add_pos_pos [of 1 "exp (- x)"] by (simp add: ln_mult)
    finally show ?thesis using False
      by (simp add: max_def algebra_simps)
  qed
  show ?thesis
    unfolding focal_elem_def Let_def a using b by simp
qed

lemma broadcast_dims_same: "broadcast_dims s s = Some s"
  by (induction s) simp_all

lemma pad_same: "pad (length s) s = s"
  by (simp add: pad_def)

lemma broadcast_shapes_same: "broadcast_shapes s s = Some s"
  by (simp add: broadcast_shapes_def pad_same broadcast_dims_same)

lemma prod_list_pad: "prod_list (pad r s) = prod_list s"
  by (simp add: pad_def)

lemma length_chunk:
  "i < n \<Longrightarrow> length xs = n * k \<Longrightarrow> length (take k (drop (i * k) xs)) = k"
proof -
  assume a: "i < n" "length xs = n * k"
  then have "Suc i \<le> n" by simp
  then have "Suc i * k \<le> n * k" by (rule mult_le_mono1)
  with a show ?thesis by simp
qed

lemma chunks_concat:
  "length xs = n * k \<Longrightarrow> concat (map (\<lambda>i. take k (drop (i * k) xs)) [0..<n]) = xs"
proof (induction n arbitrary: xs)
  case 0
  then show ?case by simp
next
  case (Suc n)
  have "length (drop k xs) = n * k" using Suc.prems by simp
  from Suc.IH [OF this]
  have "concat (map (\<lambda>i. take k (drop (Suc i * k) xs)) [0..<n]) = drop k xs"
    by (simp add: add.commute)
  then have "concat (map (\<lambda>i. take k (drop (i * k) xs)) (map Suc [0..<n])) = drop k xs"
    by (simp add: comp_def)
  then show ?case
    by (simp add: upt_conv_Cons map_Suc_upt del: upt_Suc)
qed

lemma expand_same: "length xs = prod_list s \<Longrightarrow> expand s s xs = xs"
proof (induction s arbitrary: xs)
  case Nil
  then show ?case by simp
next
  case (Cons a s)
  have eq: "map (\<lambda>i. expand s s (take (prod_list s) (drop (i * prod_list s) xs))) [0..<a]
      = map (\<lambda>i. take (prod_list s) (drop (i * prod_list s) xs)) [0..<a]"
  proof (intro map_cong refl)
    fix i assume "i \<in> set [0..<a]"
    then have "i < a" by simp
    then have "length (take (prod_list s) (drop (i * prod_list s) xs)) = prod_list s"
      using Cons.prems by (intro length_chunk [of i a]) simp_all
    then show "expand s s (take (prod_list s) (drop (i * prod_list s) xs))
               = take (prod_list s) (drop (i * prod_list s) xs)"
      by (rule Cons.IH)
  qed
  show ?case
    unfolding expand.simps Let_def eq
    using chunks_concat [of xs a "prod_list s"] Cons.prems by simp
qed

lemma broadcast_dims_compat:
  "broadcast_dims a b = Some d \<Longrightarrow> list_all2 compat a d \<and> list_all2 compat b d"
  by (induction a b arbitrary: d rule: broadcast_dims.induct)
     (auto simp: compat_def split: if_splits)

lemma length_expand:
  "list_all2 compat s d \<Longrightarrow> length xs = prod_list s \<Longrightarrow> length (expand s d xs) = prod_list d"
proof (induction s d arbitrary: xs rule: list_all2_induct)
  case Nil
  then show ?case by simp
next
  case (Cons a s b d)
  show ?case
  proof (cases "a = b")
    case True
    have eq: "map (\<lambda>i. length (expand s d (take (prod_list s) (drop (i * prod_list s) xs)))) [0..<b]
        = map (\<lambda>i. prod_list d) [0..<b]"
    proof (intro map_cong refl)
      fix i assume "i \<in> set [0..<b]"
      then have "i < a" using True by simp
      then have "length (take (prod_list s) (drop (i * prod_list s) xs)) = prod_list s"
        using Cons.prems by (intro length_chunk [of i a]) simp_all
      then show "length (expand s d (take (prod_list s) (drop (i * prod_list s) xs)))
                 = prod_list d"
        by (rule Cons.IH)
    qed
    have "length (expand (a # s) (b # d) xs)
          = sum_list (map (\<lambda>i. length (expand s d (take (prod_list s) (drop (i * prod_list s) xs))))
              [0..<b])"
      using True by (simp add: Let_def length_concat comp_def)
    also have "\<dots> = b * prod_list d"
      unfolding eq by (simp add: sum_list_triv)
    finally show ?thesis by simp
  next
    case False
    with Cons.hyps have "a = 1" by (simp add: compat_def)
    with False Cons.prems Cons.IH [of xs] show ?thesis
      by (simp add: Let_def length_concat sum_list_replicate)
  qed
qed

lemma sum_chunk:
  assumes "i < n" "length xs = n * m"
  shows "sum_list (take m (drop (i * m) xs)) = (\<Sum>j<m. (xs ! (i * m + j) :: real))"
proof -
  have len: "length (take m (drop (i * m) xs)) = m"
    using assms by (rule length_chunk)
  have "Suc i * m \<le> n * m" using assms(1) by (intro mult_le_mono1) simp
  then have le: "i * m + m \<le> length xs" using assms(2) by simp
  have "sum_list (take m (drop (i * m) xs))
        = (\<Sum>j = 0..<m. take m (drop (i * m) xs) ! j)"
    using sum_list_sum_nth [of "take m (drop (i * m) xs)"] len by simp
  also have "\<dots> = (\<Sum>j = 0..<m. xs ! (i * m + j))"
    using le by (intro sum.cong refl) simp
  finally show ?thesis by (simp add: atLeast0LessThan)
qed

lemma expand_to_same: "wf_tensor t \<Longrightarrow> expand_to (shape t) t = data t"
  by (simp add: expand_to_def pad_same expand_same wf_tensor_def)

lemma elem_loss_same:
  assumes "wf_tensor logit" "wf_tensor target" "shape target = shape logit"
  shows "elem_loss gamma logit target
         = Inr \<lparr>shape = shape logit, data = map2 (focal_elem gamma) (data logit) (data target)\<rparr>"
  using assms expand_to_same [of logit] expand_to_same [of target]
  by (simp add: elem_loss_def broadcast_shapes_same)

lemma length_pad: "length s \<le> r \<Longrightarrow> length (pad r s) = r"
  by (simp add: pad_def)

lemma length_expand_to:
  assumes "broadcast_shapes s1 s2 = Some d" "wf_tensor t" "shape t = s1 \<or> shape t = s2"
  shows "length (expand_to d t) = prod_list d"
proof -
  define r where "r = max (length s1) (length s2)"
  have bd: "broadcast_dims (pad r s1) (pad r s2) = Some d"
    using assms(1) by (simp add: broadcast_shapes_def r_def Let_def)
  then have c: "list_all2 compat (pad r s1) d" "list_all2 compat (pad r s2) d"
    using broadcast_dims_compat by blast+
  have "length (pad r s1) = r" by (rule length_pad) (simp add: r_def)
  with c(1) have ld: "length d = r" by (simp add: list_all2_lengthD)
  from assms(3) have "list_all2 compat (pad (length d) (shape t)) d"
    using c ld by auto
  moreover have "length (data t) = prod_list (pad (length d) (shape t))"
    using assms(2) by (simp add: prod_list_pad wf_tensor_def)
  ultimately show ?thesis
    unfolding expand_to_def by (rule length_expand)
qed

lemma elem_loss_wf:
  assumes "elem_loss gamma logit target = Inr lossT" "wf_tensor logit" "wf_tensor target"
  shows "wf_tensor lossT"
proof -
  from assms(1) obtain d where d: "broadcast_shapes (shape logit) (shape target) = Some d"
    and lossT: "lossT = \<lparr>shape = d, data = map2 (focal_elem gamma) (expand_to d logit) (expand_to d target)\<rparr>"
    by (auto simp: elem_loss_def split: option.splits)
  have "length (expand_to d logit) = prod_list d" "length (expand_to d target) = prod_list d"
    using d assms(2,3) by (auto intro: length_expand_to)
  then show ?thesis by (simp add: lossT wf_tensor_def)
qed

lemma sum_list_upt: "sum_list (map f [0..<n]) = (\<Sum>i<n. (f i :: real))"
  by (simp add: interv_sum_list_conv_sum_set_nat atLeast0LessThan)

lemma log_sum_exp:
  "max (- x) 0 + ln (exp (- max (- x) 0) + exp (- x - max (- x) 0)) = ln (1 + exp (- x :: real))"
proof (cases "0 \<le> x")
  case True
  then have "max (- x) 0 = 0" by simp
  then show ?thesis by simp
next
  case False
  then have m: "max (- x) 0 = - x" by simp
  have "ln (exp x + 1) = ln (exp x * (1 + exp (- x)))"
    by (simp add: algebra_simps flip: exp_add)
  also have "\<dots> = x + ln (1 + exp (- x))"
    using add_pos_pos [of 1 "exp (- x)"] by (simp add: ln_mult)
  finally show ?thesis
    unfolding m by simp
qed

lemma stable_loss:
  "x - x * t + max (- x) 0 + ln (exp (- max (- x) 0) + exp (- x - max (- x) 0))
   = x - x * t + ln (1 + exp (- x :: real))"
  using log_sum_exp [of x] by simp

lemma bce_closed_form: "bce x t = x - x * t + ln (1 + exp (- x))"
proof -
  have pos: "0 < 1 + exp (- x)" by (rule add_pos_pos) simp_all
  have a: "ln (sigmoid x) = - ln (1 + exp (- x))"
    using pos by (simp add: sigmoid_def ln_div)
  have "1 - sigmoid x = exp (- x) / (1 + exp (- x))"
    using pos by (simp add: sigmoid_def field_simps)
  then have b: "ln (1 - sigmoid x) = - x - ln (1 + exp (- x))"
    using pos by (simp add: ln_div)
  show ?thesis
    unfolding bce_def a b by (simp add: algebra_simps)
qed

lemma focal_elem_gamma0: "focal_elem 0 x t = bce x t"
  by (simp add: focal_elem_def Let_def stable_loss bce_closed_form)





lemma sum_dim1_data:
  assumes "wf_tensor lossT" "shape lossT = [n, m]"
  shows "data (sum_dim1 lossT) = map (\<lambda>i. \<Sum>j<m. data lossT ! (i * m + j)) [0..<n]"
proof -
  from assms have len: "length (data lossT) = n * m" by (simp add: wf_tensor_def)
  have "map (\<lambda>i. sum_list (take m (drop (i * m) (data lossT)))) [0..<n]
      = map (\<lambda>i. \<Sum>j<m. data lossT ! (i * m + j)) [0..<n]"
    using len by (intro map_cong refl sum_chunk [of _ n]) simp_all
  then show ?thesis
    by (simp add: sum_dim1_def assms(2))
qed

lemma index_bound: "i < n \<Longrightarrow> j < m \<Longrightarrow> i * m + j < n * (m::nat)"
proof -
  assume a: "i < n" "j < m"
  then have "Suc i * m \<le> n * m" by (intro mult_le_mono1) simp
  with a show ?thesis by simp
qed


lemma forward_is_value:
  assumes "wf_tensor logit" "wf_tensor target" "shape target = shape logit" "data logit \<noteq> []"
  shows "\<exists>v. forward gamma logit target = Inr (Val v)"
proof -
  define lossT where
    "lossT = \<lparr>shape = shape logit, data = map2 (focal_elem gamma) (data logit) (data target)\<rparr>"
  have el: "elem_loss gamma logit target = Inr lossT"
    unfolding lossT_def using assms(1-3) by (rule elem_loss_same)
  have "length (data target) = length (data logit)"
    using assms(1-3) by (simp add: wf_tensor_def)
  then have ne: "data lossT \<noteq> []"
    using assms(4) by (cases "data logit"; cases "data target") (simp_all add: lossT_def)
  show ?thesis
  proof (cases "length (shape lossT) = 2")
    case True
    then obtain n m where sh: "shape logit = [n, m]"
      by (auto simp: lossT_def length_Suc_conv numeral_2_eq_2)
    have "n \<noteq> 0"
    proof
      assume "n = 0"
      with assms(1) sh have "length (data logit) = 0" by (simp add: wf_tensor_def)
      with assms(4) show False by simp
    qed
    then have "data (sum_dim1 lossT) \<noteq> []"
      by (simp add: sum_dim1_def lossT_def sh)
    then show ?thesis using True
      by (simp add: forward_def el mean_def Let_def)
  next
    case False
    then show ?thesis using ne
      by (simp add: forward_def el mean_def Let_def)
  qed
qed



section \<open>Claims about FocalLoss\<close>

text \<open>
  C7. For every gamma and every pair of a logit tensor and a target tensor,
  \<open>FocalLoss.forward\<close> is unchanged when every logit is negated and every target
  \<open>t\<close> is replaced by \<open>1 - t\<close>.
\<close>

theorem forward_negate_flip:
  "forward gamma (neg logit) (flip target) = forward gamma logit target"
proof -
  have "map2 (focal_elem gamma) (map uminus xs) (map (\<lambda>x. 1 - x) ys)
        = map2 (focal_elem gamma) xs ys" for xs ys
    by (simp add: zip_map1 zip_map2 comp_def case_prod_unfold focal_elem_symmetric)
  then show ?thesis
    by (simp add: forward_def elem_loss_def neg_def flip_def expand_to_def expand_map
        split: option.splits)
qed

text \<open>
  C1 (as amended). For gamma = 0 and a logit tensor and a target tensor of the same shape,
  the per-element loss is the closed-form binary cross-entropy (the modulating factor is
  identically 1). When the tensors are not 2-dimensional, \<open>FocalLoss.forward\<close>
  equals the binary-cross-entropy-with-logits mean over all elements; when they have the
  shape \<open>[n, m]\<close>, it equals the mean over the \<open>n\<close> rows of the per-row sums of
  the element-wise binary cross-entropy.
\<close>

theorem forward_gamma_zero:
  assumes "wf_tensor logit" "wf_tensor target" "shape target = shape logit"
  shows "(\<forall>x t. focal_elem 0 x t = bce x t)
       \<and> (length (shape logit) \<noteq> 2 \<longrightarrow>
            forward 0 logit target = bce_with_logits_mean logit target)
       \<and> (shape logit = [n, m] \<longrightarrow>
            forward 0 logit target
            = Inr (mean (map (\<lambda>i. \<Sum>j<m. bce (data logit ! (i * m + j))
                                             (data target ! (i * m + j))) [0..<n])))"
proof (intro conjI impI allI)
  show "focal_elem 0 x t = bce x t" for x t
    by (rule focal_elem_gamma0)
  define lossT where
    "lossT = \<lparr>shape = shape logit, data = map2 (focal_elem 0) (data logit) (data target)\<rparr>"
  have el: "elem_loss 0 logit target = Inr lossT"
    unfolding lossT_def using assms by (rule elem_loss_same)
  have f0: "focal_elem 0 = bce"
    by (intro ext) (rule focal_elem_gamma0)
  {
    assume "length (shape logit) \<noteq> 2"
    then show "forward 0 logit target = bce_with_logits_mean logit target"
      by (simp add: forward_def el bce_with_logits_mean_def assms(3) lossT_def f0)
  }
  {
    assume sh: "shape logit = [n, m]"
    have wf: "wf_tensor lossT" using el assms(1,2) by (rule elem_loss_wf)
    have len: "length (data logit) = n * m" "length (data target) = n * m"
      using assms sh by (simp_all add: wf_tensor_def)
    have "map (\<lambda>i. \<Sum>j<m. data lossT ! (i * m + j)) [0..<n]
        = map (\<lambda>i. \<Sum>j<m. bce (data logit ! (i * m + j)) (data target ! (i * m + j))) [0..<n]"
    proof (intro map_cong refl sum.cong)
      fix i j assume "i \<in> set [0..<n]" "j \<in> {..<m}"
      then have "i * m + j < n * m" by (simp add: index_bound)
      then show "data lossT ! (i * m + j)
                 = bce (data logit ! (i * m + j)) (data target ! (i * m + j))"
        using len by (simp add: lossT_def f0)
    qed
    with sum_dim1_data [OF wf, of n m]
    have "data (sum_dim1 lossT)
        = map (\<lambda>i. \<Sum>j<m. bce (data logit ! (i * m + j)) (data target ! (i * m + j))) [0..<n]"
      by (simp add: lossT_def sh)
    then show "forward 0 logit target
            = Inr (mean (map (\<lambda>i. \<Sum>j<m. bce (data logit ! (i * m + j))
                                             (data target ! (i * m + j))) [0..<n]))"
      by (simp add: forward_def el) (simp add: lossT_def sh)
  }
qed

text \<open>
  The specification's example: logits \<open>[0, 2, -2]\<close> with targets \<open>[1, 1, 0]\<close>.
\<close>

theorem forward_gamma_zero_witness:
  "wf_tensor \<lparr>shape = [3], data = [0, 2, - 2]\<rparr>
   \<and> wf_tensor \<lparr>shape = [3], data = [1, 1, 0]\<rparr>
   \<and> forward 0 \<lparr>shape = [3], data = [0, 2, - 2]\<rparr> \<lparr>shape = [3], data = [1, 1, 0]\<rparr>
     = bce_with_logits_mean \<lparr>shape = [3], data = [0, 2, - 2]\<rparr> \<lparr>shape = [3], data = [1, 1, 0]\<rparr>
   \<and> bce_with_logits_mean \<lparr>shape = [3], data = [0, 2, - 2]\<rparr> \<lparr>shape = [3], data = [1, 1, 0]\<rparr>
     = Inr (Val (- (ln (sigmoid 0) + ln (sigmoid 2) + ln (1 - sigmoid (- 2))) / 3))"
  using forward_gamma_zero [of "\<lparr>shape = [3], data = [0, 2, - 2]\<rparr>"
      "\<lparr>shape = [3], data = [1, 1, 0]\<rparr>"]
  by (simp add: wf_tensor_def bce_with_logits_mean_def mean_def bce_def)

text \<open>
  On the \<open>1 \<times> 2\<close> logits \<open>[[0, 0]]\<close> with targets \<open>[[1, 1]]\<close> the loss
  for gamma = 0 is \<open>2 ln 2\<close>, the binary-cross-entropy mean is \<open>ln 2\<close>.
\<close>

theorem forward_gamma_zero_counterexample:
  "forward 0 \<lparr>shape = [1, 2], data = [0, 0]\<rparr> \<lparr>shape = [1, 2], data = [1, 1]\<rparr>
   \<noteq> bce_with_logits_mean \<lparr>shape = [1, 2], data = [0, 0]\<rparr> \<lparr>shape = [1, 2], data = [1, 1]\<rparr>"
proof -
  have "elem_loss 0 \<lparr>shape = [1, 2], data = [0, 0]\<rparr> \<lparr>shape = [1, 2], data = [1, 1]\<rparr>
        = Inr \<lparr>shape = [1, 2], data = [ln 2, ln 2]\<rparr>"
    by (simp add: elem_loss_same wf_tensor_def focal_elem_gamma0 bce_closed_form)
  then have f: "forward 0 \<lparr>shape = [1, 2], data = [0, 0]\<rparr> \<lparr>shape = [1, 2], data = [1, 1]\<rparr>
        = Inr (Val (2 * ln 2))"
    by (simp add: forward_def sum_dim1_def mean_def)
  have b: "bce_with_logits_mean \<lparr>shape = [1, 2], data = [0, 0]\<rparr> \<lparr>shape = [1, 2], data = [1, 1]\<rparr>
        = Inr (Val (ln 2))"
    by (simp add: bce_with_logits_mean_def mean_def bce_closed_form)
  have "ln (2::real) > 0" by simp
  then show ?thesis unfolding f b by simp
qed




text \<open>
  C9. When the per-element loss tensor has the shape \<open>[n, m]\<close>, the value returned
  by \<open>FocalLoss.forward\<close> is the mean over the first dimension of the per-row sums over
  the second dimension; when it has the shape \<open>[n]\<close>, it is the plain mean of all
  elements.
\<close>

theorem forward_reduction:
  assumes "elem_loss gamma logit target = Inr lossT" "wf_tensor logit" "wf_tensor target"
  shows "(shape lossT = [n, m] \<longrightarrow>
            forward gamma logit target
            = Inr (if n = 0 then NaN
                   else Val ((\<Sum>i<n. \<Sum>j<m. data lossT ! (i * m + j)) / real n)))
       \<and> (shape lossT = [n] \<longrightarrow>
            forward gamma logit target
            = Inr (if n = 0 then NaN else Val ((\<Sum>i<n. data lossT ! i) / real n)))"
proof (intro conjI impI)
  have wf: "wf_tensor lossT" using assms by (rule elem_loss_wf)
  {
    assume sh: "shape lossT = [n, m]"
    with wf have len: "length (data lossT) = n * m" by (simp add: wf_tensor_def)
    have "map (\<lambda>i. sum_list (take m (drop (i * m) (data lossT)))) [0..<n]
        = map (\<lambda>i. \<Sum>j<m. data lossT ! (i * m + j)) [0..<n]"
      using len by (intro map_cong refl sum_chunk [of _ n]) simp_all
    then have "data (sum_dim1 lossT) = map (\<lambda>i. \<Sum>j<m. data lossT ! (i * m + j)) [0..<n]"
      by (simp add: sum_dim1_def sh)
    then show "forward gamma logit target
            = Inr (if n = 0 then NaN
                   else Val ((\<Sum>i<n. \<Sum>j<m. data lossT ! (i * m + j)) / real n))"
      by (simp add: forward_def assms(1) sh mean_def sum_list_upt)
  }
  {
    assume sh: "shape lossT = [n]"
    with wf have len: "length (data lossT) = n" by (simp add: wf_tensor_def)
    have "sum_list (data lossT) = (\<Sum>i<n. data lossT ! i)"
      using sum_list_sum_nth [of "data lossT"] len by (simp add: atLeast0LessThan)
    then show "forward gamma logit target
            = Inr (if n = 0 then NaN else Val ((\<Sum>i<n. data lossT ! i) / real n))"
      using len by (auto simp: forward_def assms(1) sh mean_def)
  }
qed

theorem forward_reduction_witness:
  "forward 2 \<lparr>shape = [1, 2], data = [0, 0]\<rparr> \<lparr>shape = [1, 2], data = [1, 1]\<rparr>
     = Inr (Val ((focal_elem 2 0 1 + focal_elem 2 0 1) / 1))
   \<and> forward 2 \<lparr>shape = [2], data = [0, 0]\<rparr> \<lparr>shape = [2], data = [1, 1]\<rparr>
     = Inr (Val ((focal_elem 2 0 1 + focal_elem 2 0 1) / 2))"
proof -
  have a: "elem_loss 2 \<lparr>shape = [1, 2], data = [0, 0]\<rparr> \<lparr>shape = [1, 2], data = [1, 1]\<rparr>
        = Inr \<lparr>shape = [1, 2], data = [focal_elem 2 0 1, focal_elem 2 0 1]\<rparr>"
    by (simp add: elem_loss_same wf_tensor_def)
  have b: "elem_loss 2 \<lparr>shape = [2], data = [0, 0]\<rparr> \<lparr>shape = [2], data = [1, 1]\<rparr>
        = Inr \<lparr>shape = [2], data = [focal_elem 2 0 1, focal_elem 2 0 1]\<rparr>"
    by (simp add: elem_loss_same wf_tensor_def)
  show ?thesis
    using forward_reduction [OF a, of 1 2] forward_reduction [OF b, of 2 2]
    by (simp add: wf_tensor_def lessThan_Suc numeral_2_eq_2)
qed

section \<open>Properties of the epoch loop\<close>

lemma saved_paths_append: "saved_paths (xs @ ys) = saved_paths xs @ saved_paths ys"
  by (induction xs rule: saved_paths.induct) simp_all

lemma logged_metrics_append: "logged_metrics (xs @ ys) = logged_metrics xs @ logged_metrics ys"
  by (induction xs rule: logged_metrics.induct) simp_all

lemma logged_epochs_append: "logged_epochs (xs @ ys) = logged_epochs xs @ logged_epochs ys"
  by (induction xs rule: logged_epochs.induct) simp_all

lemma step_calls_append: "step_calls (xs @ ys) = step_calls xs @ step_calls ys"
  by (induction xs rule: step_calls.induct) simp_all

lemma str_nat_hd: "str_nat n \<noteq> [] \<and> hd (str_nat n) \<in> set ''0123456789''"
proof (induction n rule: str_nat.induct)
  case (1 n)
  show ?case
  proof (cases "n < 10")
    case True
    then have "''0123456789'' ! n \<in> set ''0123456789''"
      by (intro nth_mem) simp
    with True show ?thesis
      by (subst (1 2) str_nat.simps) simp
  next
    case False
    with 1 show ?thesis
      by (subst (1 2) str_nat.simps) simp
  qed
qed

lemma path_join_relative:
  "b \<noteq> [] \<Longrightarrow> hd b \<noteq> CHR ''/'' \<Longrightarrow>
   path_join a b = (if a = [] \<or> last a = CHR ''/'' then a else a @ ''/'') @ b"
  by (simp add: path_join_def)

lemma epoch_path_neq_best: "epoch_path cfg e \<noteq> best_path cfg"
proof -
  obtain c cs where s: "str_nat e = c # cs" and c: "c \<in> set ''0123456789''"
    using str_nat_hd [of e] by (cases "str_nat e") auto
  from c have "c \<noteq> CHR ''/''" "c \<noteq> CHR ''b''" by auto
  then show ?thesis
    by (simp add: epoch_path_def best_path_def path_join_relative s)
qed

lemma digit_inj:
  assumes "a < 10" "b < 10" "''0123456789'' ! a = ''0123456789'' ! b"
  shows "a = b"
proof -
  have "distinct ''0123456789''" by simp
  with assms show ?thesis
    by (simp add: nth_eq_iff_index_eq)
qed

lemma str_nat_small: "n < 10 \<Longrightarrow> str_nat n = [''0123456789'' ! n]"
  by (subst str_nat.simps) simp

lemma str_nat_large:
  "\<not> n < 10 \<Longrightarrow> str_nat n = str_nat (n div 10) @ [''0123456789'' ! (n mod 10)]"
  by (subst str_nat.simps) simp

lemma str_nat_inj: "str_nat a = str_nat b \<Longrightarrow> a = b"
proof (induction a arbitrary: b rule: str_nat.induct)
  case (1 a)
  show ?case
  proof (cases "a < 10")
    case True
    show ?thesis
    proof (cases "b < 10")
      case b: True
      with True "1.prems" show ?thesis
        by (simp add: str_nat_small digit_inj)
    next
      case False
      with True "1.prems" str_nat_hd [of "b div 10"] show ?thesis
        by (simp add: str_nat_small str_nat_large Cons_eq_append_conv)
    qed
  next
    case False
    show ?thesis
    proof (cases "b < 10")
      case True
      with False "1.prems" str_nat_hd [of "a div 10"] show ?thesis
        by (simp add: str_nat_small str_nat_large append_eq_Cons_conv)
    next
      case b: False
      with False "1.prems" have
        "str_nat (a div 10) = str_nat (b div 10)"
        "''0123456789'' ! (a mod 10) = ''0123456789'' ! (b mod 10)"
        by (simp_all add: str_nat_large)
      with "1.IH" [OF False] have "a div 10 = b div 10" "a mod 10 = b mod 10"
        by (auto intro: digit_inj)
      then show ?thesis
        by (metis div_mult_mod_eq)
    qed
  qed
qed

lemma epoch_path_inj: "epoch_path cfg a = epoch_path cfg b \<Longrightarrow> a = b"
proof -
  assume eq: "epoch_path cfg a = epoch_path cfg b"
  have rel: "str_nat e @ ''.pth'' \<noteq> [] \<and> hd (str_nat e @ ''.pth'') \<noteq> CHR ''/''" for e
    using str_nat_hd [of e] by (cases "str_nat e") auto
  from eq have "str_nat a @ ''.pth'' = str_nat b @ ''.pth''"
    using rel [of a] rel [of b] by (simp add: epoch_path_def path_join_relative)
  then show ?thesis by (simp add: str_nat_inj)
qed

lemma distinct_epoch_paths: "distinct (map (epoch_path cfg) [0..<n])"
  by (simp add: distinct_map inj_on_def epoch_path_inj)

lemma train_step_events:
  assumes "train_step L trl vl cfg e w = Inr w'"
  shows "\<exists>m lr c. events w' = events w
            @ [Step (if is_cosine L then None else Some m), Saved (epoch_path cfg e) c]
            @ (if m > max_score w then [Saved (best_path cfg) c] else [])
            @ [Logged (log_path cfg) e m lr]
          \<and> max_score w' = max (max_score w) m"
proof -
  from assms obtain \<theta> ls m where
    te: "train_epoch L (learner_state w) trl (loss cfg) (use_qual cfg) = Inr (\<theta>, ls)"
    and ve: "valid_epoch L \<theta> vl (single_metric cfg) (loss cfg) (use_qual cfg) = Inr m"
    by (auto simp: train_step_def split: sum.splits prod.splits)
  define c where "c = scheduler_step L (if is_cosine L then None else Some m) \<theta>"
  have "events w' = events w
          @ [Step (if is_cosine L then None else Some m), Saved (epoch_path cfg e) c]
          @ (if m > max_score w then [Saved (best_path cfg) c] else [])
          @ [Logged (log_path cfg) e m (lr_of L \<theta>)]"
    and "max_score w' = max (max_score w) m"
    using assms by (auto simp: train_step_def te ve Let_def c_def)
  then show ?thesis by blast
qed

lemma train_upto_Suc:
  "train_upto L \<theta> trl vl cfg (Suc n) =
     (case train_upto L \<theta> trl vl cfg n of
        (w, Some e) \<Rightarrow> (w, Some e)
      | (w, None) \<Rightarrow>
          (case train_step L trl vl cfg n w of Inl e \<Rightarrow> (w, Some e) | Inr w' \<Rightarrow> (w', None)))"
  by (simp add: train_upto_def)

lemma train_upto_0:
  "train_upto L \<theta> trl vl cfg 0 = (\<lparr>learner_state = \<theta>, max_score = 0, events = []\<rparr>, None)"
  by (simp add: train_upto_def)

lemma train_upto_completed:
  assumes "train_upto L \<theta> trl vl cfg (Suc n) = (w', None)"
  shows "\<exists>w. train_upto L \<theta> trl vl cfg n = (w, None) \<and> train_step L trl vl cfg n w = Inr w'"
  using assms unfolding train_upto_Suc
  by (auto split: prod.splits option.splits sum.splits)

lemma Max_snoc: "Max (insert 0 (set (xs @ [m]))) = max (Max (insert (0::real) (set xs))) m"
proof -
  have "insert 0 (set (xs @ [m])) = insert m (insert 0 (set xs))" by auto
  then show ?thesis by (simp add: max.commute)
qed

lemma train_upto_invariant:
  fixes L :: "'m learner"
  defines "arg \<equiv> \<lambda>m. if is_cosine L then None else Some m"
  shows "(case train_upto L \<theta> trl vl cfg n of (w, err) \<Rightarrow>
           step_calls (events w) = map arg (logged_metrics (events w))
         \<and> filter (\<lambda>p. p \<noteq> best_path cfg) (saved_paths (events w))
             = map (epoch_path cfg) (logged_epochs (events w))
         \<and> max_score w = Max (insert 0 (set (logged_metrics (events w))))
         \<and> logged_epochs (events w) = [0..<length (logged_metrics (events w))]
         \<and> length (logged_metrics (events w)) \<le> n
         \<and> (err = None \<longrightarrow> length (logged_metrics (events w)) = n)
         \<and> (best_path cfg \<in> set (saved_paths (events w))
              \<longrightarrow> (\<exists>m\<in>set (logged_metrics (events w)). 0 < m)))"
proof (induction n)
  case 0
  show ?case by (simp add: train_upto_0)
next
  case (Suc n)
  obtain w err where run: "train_upto L \<theta> trl vl cfg n = (w, err)"
    by (cases "train_upto L \<theta> trl vl cfg n")
  note IH = Suc.IH [unfolded run, simplified]
  show ?case
  proof (cases err)
    case (Some e)
    with IH show ?thesis
      by (simp add: train_upto_Suc run)
  next
    case None
    show ?thesis
    proof (cases "train_step L trl vl cfg n w")
      case (Inl e)
      with IH None show ?thesis
        by (simp add: train_upto_Suc run)
    next
      case (Inr w')
      from train_step_events [OF Inr] obtain m lr c where
        ev: "events w' = events w
              @ [Step (arg m), Saved (epoch_path cfg n) c]
              @ (if m > max_score w then [Saved (best_path cfg) c] else [])
              @ [Logged (log_path cfg) n m lr]"
        and mx: "max_score w' = max (max_score w) m"
        unfolding arg_def by blast
      have len: "length (logged_metrics (events w)) = n"
        using IH None by simp
      have nonneg: "0 \<le> max_score w"
        using IH by simp
      have "step_calls (events w') = map arg (logged_metrics (events w'))"
        using IH by (simp add: ev step_calls_append logged_metrics_append)
      moreover have "filter (\<lambda>p. p \<noteq> best_path cfg) (saved_paths (events w'))
             = map (epoch_path cfg) (logged_epochs (events w'))"
        using IH by (simp add: ev saved_paths_append logged_epochs_append epoch_path_neq_best)
      moreover have "max_score w' = Max (insert 0 (set (logged_metrics (events w'))))"
      proof -
        have "logged_metrics (events w') = logged_metrics (events w) @ [m]"
          by (simp add: ev logged_metrics_append)
        then show ?thesis
          using IH by (simp only: Max_snoc mx)
      qed
      moreover have "logged_epochs (events w') = [0..<length (logged_metrics (events w'))]"
        using IH len by (simp add: ev logged_metrics_append logged_epochs_append)
      moreover have "length (logged_metrics (events w')) = Suc n"
        using len by (simp add: ev logged_metrics_append)
      moreover have "best_path cfg \<in> set (saved_paths (events w'))
              \<longrightarrow> (\<exists>m\<in>set (logged_metrics (events w')). 0 < m)"
      proof
        assume "best_path cfg \<in> set (saved_paths (events w'))"
        then have "best_path cfg \<in> set (saved_paths (events w)) \<or> max_score w < m"
          using epoch_path_neq_best [of cfg n]
          by (auto simp: ev saved_paths_append split: if_splits)
        then show "\<exists>m\<in>set (logged_metrics (events w')). 0 < m"
        proof
          assume "best_path cfg \<in> set (saved_paths (events w))"
          with IH obtain m' where "m' \<in> set (logged_metrics (events w))" "0 < m'" by blast
          then show ?thesis by (auto simp: ev logged_metrics_append)
        next
          assume "max_score w < m"
          with nonneg have "0 < m" by simp
          then show ?thesis by (auto simp: ev logged_metrics_append)
        qed
      qed
      ultimately show ?thesis
        by (simp add: train_upto_Suc run None Inr)
    qed
  qed
qed

lemma train_upto_segment:
  assumes "train_upto L \<theta> trl vl cfg (Suc e) = (w2, None)"
  shows "\<exists>w1 m lr c. train_upto L \<theta> trl vl cfg e = (w1, None)
          \<and> events w2 = events w1
              @ [Step (if is_cosine L then None else Some m), Saved (epoch_path cfg e) c]
              @ (if max_score w1 < m then [Saved (best_path cfg) c] else [])
              @ [Logged (log_path cfg) e m lr]
          \<and> max_score w2 = max (max_score w1) m"
proof -
  from train_upto_completed [OF assms] obtain w1 where
    "train_upto L \<theta> trl vl cfg e = (w1, None)" "train_step L trl vl cfg e w1 = Inr w2"
    by blast
  with train_step_events [of L trl vl cfg e w1 w2] show ?thesis by blast
qed

lemma train_upto_earlier:
  assumes "train_upto L \<theta> trl vl cfg (e + k) = (w, None)"
  shows "\<exists>w1. train_upto L \<theta> trl vl cfg e = (w1, None)"
  using assms
proof (induction k arbitrary: w)
  case 0
  then show ?case by simp
next
  case (Suc k)
  then have "train_upto L \<theta> trl vl cfg (Suc (e + k)) = (w, None)" by simp
  from train_upto_completed [OF this] Suc.IH show ?case by blast
qed

lemma bind_simps [simp]: "bind (Inl e) f = Inl e" "bind (Inr v) f = f v"
  by (simp_all add: bind_def)

lemma ex_qal_loss: "qal_loss ex_qual ex_t1 = Inr (Val (focal_elem 2 0 1))"
  by (simp add: qal_loss_def forward_def elem_loss_same wf_tensor_def ex_qual_def ex_t1_def
      mean_def)

lemma ex_train_epoch:
  "train_epoch ex_learner \<theta> [[ex_im, ex_t0, ex_t1]] ex_bce True
   = Inr (Suc \<theta>, [Val (1 + 0.2 * focal_elem 2 0 1)])"
  by (simp add: batch_loss_def ex_learner_def ex_bce_def ex_qal_loss)

lemma ex_col0_t0: "col0 ex_t0 = Inr [0]"
  by (simp add: col0_def ex_t0_def inner_def)

lemma ex_col0_pred: "col0 ex_pred = Inr [1 / 4]"
  by (simp add: col0_def ex_pred_def inner_def)

lemma ex_valid_epoch:
  "valid_epoch ex_learner \<theta> [[ex_im, ex_t0]] sm ex_bce True = Inr (sm [1] [3 / 4])"
  by (simp add: valid_epoch_def valid_batch_def validate_def ex_learner_def ex_bce_def
      ex_col0_t0 ex_col0_pred)

lemma ex_paths:
  "epoch_path ex_config 0 = ''exp/run/models/0.pth''"
  "epoch_path ex_config (Suc 0) = ''exp/run/models/1.pth''"
  "best_path ex_config = ''exp/run/models/best.pth''"
  "log_path ex_config = ''exp/run/run.txt''"
  by (simp_all add: epoch_path_def best_path_def log_path_def models_path_def
      experiment_path_def path_join_def ex_config_def str_nat.simps)

lemma ex_upto:
  "train_upto ex_learner 0 [[ex_im, ex_t0, ex_t1]] [[ex_im, ex_t0]] ex_config (Suc 0)
   = (\<lparr>learner_state = 1, max_score = 3 / 4,
       events = [Step (Some (3 / 4)), Saved ''exp/run/models/0.pth'' 1,
                 Saved ''exp/run/models/best.pth'' 1,
                 Logged ''exp/run/run.txt'' 0 (3 / 4) (1 / 10)]\<rparr>, None)"
  "train_upto ex_learner 0 [[ex_im, ex_t0, ex_t1]] [[ex_im, ex_t0]] ex_config (Suc (Suc 0))
   = (ex_world, None)"
proof -
  have c: "loss ex_config = ex_bce" "use_qual ex_config = True"
    "single_metric ex_config = (\<lambda>labels predicts. sum_list predicts)"
    by (simp_all add: ex_config_def)
  have l: "is_cosine ex_learner = False" "lr_of ex_learner = (\<lambda>\<theta>. 1 / 10)"
    "scheduler_step ex_learner = (\<lambda>arg \<theta>. \<theta>)"
    by (simp_all add: ex_learner_def)
  show one: "train_upto ex_learner 0 [[ex_im, ex_t0, ex_t1]] [[ex_im, ex_t0]] ex_config (Suc 0)
   = (\<lparr>learner_state = 1, max_score = 3 / 4,
       events = [Step (Some (3 / 4)), Saved ''exp/run/models/0.pth'' 1,
                 Saved ''exp/run/models/best.pth'' 1,
                 Logged ''exp/run/run.txt'' 0 (3 / 4) (1 / 10)]\<rparr>, None)"
    by (simp add: train_upto_Suc train_upto_0 train_step_def c l ex_train_epoch
        ex_valid_epoch ex_paths del: train_epoch.simps)
  show "train_upto ex_learner 0 [[ex_im, ex_t0, ex_t1]] [[ex_im, ex_t0]] ex_config (Suc (Suc 0))
   = (ex_world, None)"
    by (simp add: train_upto_Suc [of _ _ _ _ _ "Suc 0"] one train_step_def c l ex_train_epoch
        ex_valid_epoch ex_paths ex_world_def del: train_epoch.simps)
qed

lemma ex_train:
  "train ex_learner 0 [[ex_im, ex_t0, ex_t1]] [[ex_im, ex_t0]] ex_config = (ex_world, None)"
  using ex_upto(2) by (simp add: train_def ex_config_def numeral_2_eq_2)

lemma ex_upto_neg:
  "train_upto ex_learner 0 [[ex_im, ex_t0, ex_t1]] [[ex_im, ex_t0]] ex_config_neg (Suc 0)
   = (\<lparr>learner_state = 1, max_score = 0,
       events = [Step (Some (- (3 / 4))), Saved ''exp/run/models/0.pth'' 1,
                 Logged ''exp/run/run.txt'' 0 (- (3 / 4)) (1 / 10)]\<rparr>, None)"
proof -
  have c: "loss ex_config_neg = ex_bce" "use_qual ex_config_neg = True"
    "single_metric ex_config_neg = (\<lambda>labels predicts. - sum_list predicts)"
    by (simp_all add: ex_config_def ex_config_neg_def)
  have l: "is_cosine ex_learner = False" "lr_of ex_learner = (\<lambda>\<theta>. 1 / 10)"
    "scheduler_step ex_learner = (\<lambda>arg \<theta>. \<theta>)"
    by (simp_all add: ex_learner_def)
  have p: "epoch_path ex_config_neg 0 = ''exp/run/models/0.pth''"
    "log_path ex_config_neg = ''exp/run/run.txt''"
    using ex_paths(1,4)
    by (simp_all add: epoch_path_def log_path_def models_path_def experiment_path_def
        ex_config_neg_def)
  show ?thesis
    by (simp add: train_upto_Suc train_upto_0 train_step_def c l p ex_train_epoch
        ex_valid_epoch del: train_epoch.simps)
qed

section \<open>Claims about train\<close>

text \<open>
  C4. In a run of \<open>train\<close> with \<open>n_epochs = E\<close> that completes, the
  checkpoints written at other paths than \<open>best.pth\<close> are exactly the \<open>E\<close> numbered
  ones, \<open><models_path>/<epoch>.pth\<close> for the epochs 0 to \<open>E - 1\<close> in order, at
  pairwise different paths; exactly \<open>E\<close> log lines are appended; and in every epoch the
  events are the scheduler step, the numbered checkpoint, the checkpoint \<open>best.pth\<close> if
  and only if the epoch's metric strictly exceeds the running \<open>max_score\<close>, and the log
  line.
\<close>

theorem train_checkpoints_and_log:
  assumes "train L \<theta> trl vl cfg = (w, None)" and "0 \<le> n_epochs cfg"
  shows "filter (\<lambda>p. p \<noteq> best_path cfg) (saved_paths (events w))
           = map (epoch_path cfg) [0..<nat (n_epochs cfg)]
       \<and> int (length (filter (\<lambda>p. p \<noteq> best_path cfg) (saved_paths (events w))))
           = n_epochs cfg
       \<and> distinct (filter (\<lambda>p. p \<noteq> best_path cfg) (saved_paths (events w)))
       \<and> int (length (logged_metrics (events w))) = n_epochs cfg
       \<and> (\<forall>e<nat (n_epochs cfg). \<exists>w1 w2 m lr c.
             train_upto L \<theta> trl vl cfg e = (w1, None)
           \<and> train_upto L \<theta> trl vl cfg (Suc e) = (w2, None)
           \<and> events w2 = events w1
               @ [Step (if is_cosine L then None else Some m), Saved (epoch_path cfg e) c]
               @ (if max_score w1 < m then [Saved (best_path cfg) c] else [])
               @ [Logged (log_path cfg) e m lr])"
proof -
  define n where "n = nat (n_epochs cfg)"
  have run: "train_upto L \<theta> trl vl cfg n = (w, None)"
    using assms(1) by (simp add: train_def n_def)
  from train_upto_invariant [where L = L and \<theta> = \<theta> and trl = trl and vl = vl
      and cfg = cfg and n = n]
  have inv: "filter (\<lambda>p. p \<noteq> best_path cfg) (saved_paths (events w))
               = map (epoch_path cfg) (logged_epochs (events w))"
    "logged_epochs (events w) = [0..<length (logged_metrics (events w))]"
    "length (logged_metrics (events w)) = n"
    by (simp_all add: run)
  have seg: "\<exists>w1 w2 m lr c.
             train_upto L \<theta> trl vl cfg e = (w1, None)
           \<and> train_upto L \<theta> trl vl cfg (Suc e) = (w2, None)
           \<and> events w2 = events w1
               @ [Step (if is_cosine L then None else Some m), Saved (epoch_path cfg e) c]
               @ (if max_score w1 < m then [Saved (best_path cfg) c] else [])
               @ [Logged (log_path cfg) e m lr]" if "e < n" for e
  proof -
    from that have "n = Suc e + (n - Suc e)" by simp
    with run have "train_upto L \<theta> trl vl cfg (Suc e + (n - Suc e)) = (w, None)" by simp
    from train_upto_earlier [OF this]
    obtain w2 where w2: "train_upto L \<theta> trl vl cfg (Suc e) = (w2, None)" by blast
    from train_upto_segment [OF this] w2 show ?thesis by blast
  qed
  have "int n = n_epochs cfg" using assms(2) by (simp add: n_def)
  with inv seg distinct_epoch_paths [of cfg n] show ?thesis
    unfolding n_def [symmetric] by simp
qed

text \<open>
  A run of two epochs whose metric is 3/4 both times: the second epoch ties with
  \<open>max_score\<close> and writes no \<open>best.pth\<close>.
\<close>

theorem train_checkpoints_and_log_witness:
  "train ex_learner 0 [[ex_im, ex_t0, ex_t1]] [[ex_im, ex_t0]] ex_config = (ex_world, None)
   \<and> 0 \<le> n_epochs ex_config
   \<and> saved_paths (events ex_world)
       = [''exp/run/models/0.pth'', ''exp/run/models/best.pth'', ''exp/run/models/1.pth'']
   \<and> filter (\<lambda>p. p \<noteq> best_path ex_config) (saved_paths (events ex_world))
       = map (epoch_path ex_config) [0..<nat (n_epochs ex_config)]
   \<and> int (length (logged_metrics (events ex_world))) = n_epochs ex_config"
  using train_checkpoints_and_log [OF ex_train]
  by (simp add: ex_train) (simp add: ex_config_def ex_world_def)

text \<open>
  C5. In every epoch of \<open>train\<close>, the scheduler's step method is invoked once: with no
  argument if the scheduler is a cosine-annealing scheduler, and otherwise with the
  validation metric of that epoch (the one the epoch logs) as its sole argument.
\<close>

theorem scheduler_dispatch:
  assumes "train L \<theta> trl vl cfg = (w, err)"
  shows "step_calls (events w)
           = map (\<lambda>m. if is_cosine L then None else Some m) (logged_metrics (events w))
       \<and> (\<forall>e w2. train_upto L \<theta> trl vl cfg (Suc e) = (w2, None) \<longrightarrow>
            (\<exists>w1 m lr c. train_upto L \<theta> trl vl cfg e = (w1, None)
              \<and> events w2 = events w1
                  @ [Step (if is_cosine L then None else Some m), Saved (epoch_path cfg e) c]
                  @ (if max_score w1 < m then [Saved (best_path cfg) c] else [])
                  @ [Logged (log_path cfg) e m lr]))"
proof (intro conjI allI impI)
  have run: "train_upto L \<theta> trl vl cfg (nat (n_epochs cfg)) = (w, err)"
    using assms by (simp add: train_def)
  from train_upto_invariant [where L = L and \<theta> = \<theta> and trl = trl and vl = vl
      and cfg = cfg and n = "nat (n_epochs cfg)"]
  show "step_calls (events w)
           = map (\<lambda>m. if is_cosine L then None else Some m) (logged_metrics (events w))"
    by (simp add: run)
next
  fix e w2
  assume "train_upto L \<theta> trl vl cfg (Suc e) = (w2, None)"
  from train_upto_segment [OF this]
  show "\<exists>w1 m lr c. train_upto L \<theta> trl vl cfg e = (w1, None)
              \<and> events w2 = events w1
                  @ [Step (if is_cosine L then None else Some m), Saved (epoch_path cfg e) c]
                  @ (if max_score w1 < m then [Saved (best_path cfg) c] else [])
                  @ [Logged (log_path cfg) e m lr]"
    by blast
qed

theorem scheduler_dispatch_witness:
  "train ex_learner 0 [[ex_im, ex_t0, ex_t1]] [[ex_im, ex_t0]] ex_config = (ex_world, None)
   \<and> \<not> is_cosine ex_learner
   \<and> logged_metrics (events ex_world) = [3 / 4, 3 / 4]
   \<and> step_calls (events ex_world) = [Some (3 / 4), Some (3 / 4)]"
  using scheduler_dispatch [OF ex_train]
  by (simp add: ex_train) (simp add: ex_world_def ex_learner_def)

text \<open>
  C10. After any number of epochs of \<open>train\<close>, \<open>max_score\<close> is not smaller than
  it was an epoch earlier and equals the maximum of 0 and the validation metrics observed so
  far; and when every metric so far is at most 0, no \<open>best.pth\<close> has been written.
\<close>

theorem max_score_running_max:
  "fst (train L \<theta> trl vl cfg) = fst (train_upto L \<theta> trl vl cfg (nat (n_epochs cfg)))
   \<and> max_score (fst (train_upto L \<theta> trl vl cfg n))
       \<le> max_score (fst (train_upto L \<theta> trl vl cfg (Suc n)))
   \<and> max_score (fst (train_upto L \<theta> trl vl cfg n))
       = Max (insert 0 (set (logged_metrics (events (fst (train_upto L \<theta> trl vl cfg n))))))
   \<and> ((\<forall>m\<in>set (logged_metrics (events (fst (train_upto L \<theta> trl vl cfg n)))). m \<le> 0)
        \<longrightarrow> best_path cfg \<notin> set (saved_paths (events (fst (train_upto L \<theta> trl vl cfg n)))))"
proof (intro conjI)
  show "fst (train L \<theta> trl vl cfg) = fst (train_upto L \<theta> trl vl cfg (nat (n_epochs cfg)))"
    by (simp add: train_def)
  obtain w err where run: "train_upto L \<theta> trl vl cfg n = (w, err)"
    by (cases "train_upto L \<theta> trl vl cfg n")
  note inv = train_upto_invariant [where L = L and \<theta> = \<theta> and trl = trl and vl = vl
      and cfg = cfg and n = n, unfolded run, simplified]
  show "max_score (fst (train_upto L \<theta> trl vl cfg n))
       \<le> max_score (fst (train_upto L \<theta> trl vl cfg (Suc n)))"
  proof (cases "\<exists>w'. err = None \<and> train_step L trl vl cfg n w = Inr w'")
    case True
    then obtain w' where st: "err = None" "train_step L trl vl cfg n w = Inr w'" by blast
    from train_step_events [OF st(2)] have "max_score w \<le> max_score w'" by auto
    then show ?thesis by (simp add: train_upto_Suc run st)
  next
    case False
    then show ?thesis
      by (cases err; cases "train_step L trl vl cfg n w") (simp_all add: train_upto_Suc run)
  qed
  show "max_score (fst (train_upto L \<theta> trl vl cfg n))
       = Max (insert 0 (set (logged_metrics (events (fst (train_upto L \<theta> trl vl cfg n))))))"
    using inv by (simp add: run)
  show "(\<forall>m\<in>set (logged_metrics (events (fst (train_upto L \<theta> trl vl cfg n)))). m \<le> 0)
        \<longrightarrow> best_path cfg \<notin> set (saved_paths (events (fst (train_upto L \<theta> trl vl cfg n))))"
  proof
    assume le: "\<forall>m\<in>set (logged_metrics (events (fst (train_upto L \<theta> trl vl cfg n)))). m \<le> 0"
    show "best_path cfg \<notin> set (saved_paths (events (fst (train_upto L \<theta> trl vl cfg n))))"
    proof
      assume "best_path cfg \<in> set (saved_paths (events (fst (train_upto L \<theta> trl vl cfg n))))"
      with inv obtain m where "m \<in> set (logged_metrics (events w))" "0 < m"
        by (auto simp: run)
      with le show False by (auto simp: run)
    qed
  qed
qed

theorem max_score_running_max_witness:
  "logged_metrics (events (fst (train_upto ex_learner 0 [[ex_im, ex_t0, ex_t1]] [[ex_im, ex_t0]]
      ex_config_neg (Suc 0)))) = [- (3 / 4)]
   \<and> max_score (fst (train_upto ex_learner 0 [[ex_im, ex_t0, ex_t1]] [[ex_im, ex_t0]]
      ex_config_neg (Suc 0))) = 0
   \<and> best_path ex_config_neg \<notin> set (saved_paths (events (fst (train_upto ex_learner 0
      [[ex_im, ex_t0, ex_t1]] [[ex_im, ex_t0]] ex_config_neg (Suc 0)))))"
  using max_score_running_max [of ex_learner 0 "[[ex_im, ex_t0, ex_t1]]" "[[ex_im, ex_t0]]"
      ex_config_neg "Suc 0"]
  by (simp add: ex_upto_neg)

section \<open>Properties of the passes over the loaders\<close>

lemma valid_batches_acc:
  "valid_batches L \<theta> crit uq loader (ps, ts) = Inr (preds0, true0) \<Longrightarrow>
   \<exists>rs. map (valid_batch L \<theta> crit uq) loader = map Inr rs
      \<and> preds0 = ps @ concat (map fst rs) \<and> true0 = ts @ concat (map snd rs)"
proof (induction loader arbitrary: ps ts)
  case Nil
  then show ?case by simp
next
  case (Cons b loader)
  from Cons.prems obtain p t where
    b: "valid_batch L \<theta> crit uq b = Inr (p, t)"
    and r: "valid_batches L \<theta> crit uq loader (ps @ p, ts @ t) = Inr (preds0, true0)"
    by (auto split: sum.splits)
  from Cons.IH [OF r] obtain rs where
    "map (valid_batch L \<theta> crit uq) loader = map Inr rs"
    "preds0 = (ps @ p) @ concat (map fst rs)" "true0 = (ts @ t) @ concat (map snd rs)"
    by blast
  then have "map (valid_batch L \<theta> crit uq) (b # loader) = map Inr ((p, t) # rs)
      \<and> preds0 = ps @ concat (map fst ((p, t) # rs))
      \<and> true0 = ts @ concat (map snd ((p, t) # rs))"
    by (simp add: b)
  then show ?case by blast
qed

lemma ex_valid_batch:
  "valid_batch ex_learner \<theta> ex_bce True [ex_im, ex_t0] = Inr ([3 / 4], [1])"
  by (simp add: valid_batch_def ex_learner_def ex_bce_def ex_col0_t0 ex_col0_pred)

lemma take_drop_nth:
  "a + r \<le> length xs \<Longrightarrow> take r (drop a xs) = map (\<lambda>k. xs ! (a + k)) [0..<r]"
  by (intro nth_equalityI) simp_all

lemma prod_list_shape:
  "2 \<le> length (shape t) \<Longrightarrow> prod_list (shape t) = shape t ! 0 * (shape t ! 1 * inner t)"
proof -
  assume "2 \<le> length (shape t)"
  then obtain n m rest where "shape t = n # m # rest"
    by (cases "shape t"; cases "tl (shape t)") auto
  then show ?thesis by (simp add: inner_def)
qed

lemma block_bound:
  assumes "i < n" "0 < (m::nat)"
  shows "i * m * r + r \<le> n * (m * r)"
proof -
  from assms(1) have "Suc i * m \<le> n * m" by (intro mult_le_mono1) simp
  with assms(2) have "Suc (i * m) \<le> n * m" by simp
  then have "Suc (i * m) * r \<le> n * m * r" by (rule mult_le_mono1)
  then show ?thesis by (simp add: algebra_simps)
qed

lemma col0_at3:
  assumes "wf_tensor t" "col0 t = Inr xs"
  shows "2 \<le> length (shape t) \<and> 0 < shape t ! 1
       \<and> xs = concat (map (\<lambda>i. map (\<lambda>k. at3 t i 0 k) [0..<inner t]) [0..<shape t ! 0])"
proof -
  from assms(2) have two: "2 \<le> length (shape t)" and m: "0 < shape t ! 1"
    and xs: "xs = concat (map (\<lambda>i. take (inner t) (drop (i * (shape t ! 1) * inner t) (data t)))
                  [0..<shape t ! 0])"
    by (auto simp: col0_def split: if_splits)
  have len: "length (data t) = shape t ! 0 * (shape t ! 1 * inner t)"
    using assms(1) two by (simp add: wf_tensor_def prod_list_shape)
  have eq: "map (\<lambda>i. take (inner t) (drop (i * (shape t ! 1) * inner t) (data t))) [0..<shape t ! 0]
      = map (\<lambda>i. map (\<lambda>k. at3 t i 0 k) [0..<inner t]) [0..<shape t ! 0]"
  proof (intro map_cong refl)
    fix i assume "i \<in> set [0..<shape t ! 0]"
    then have "i * (shape t ! 1) * inner t + inner t \<le> length (data t)"
      using m by (simp add: len block_bound)
    then show "take (inner t) (drop (i * (shape t ! 1) * inner t) (data t))
               = map (\<lambda>k. at3 t i 0 k) [0..<inner t]"
      by (simp add: take_drop_nth at3_def)
  qed
  show ?thesis
    unfolding xs eq using two m by simp
qed

lemma softmax1_col0:
  assumes "wf_tensor p" "softmax1 p = Inr s" "col0 s = Inr xs"
  shows "2 \<le> length (shape p) \<and> 0 < shape p ! 1
       \<and> xs = concat (map (\<lambda>i. map (\<lambda>k.
                exp (at3 p i 0 k) / (\<Sum>j<shape p ! 1. exp (at3 p i j k)))
                [0..<inner p]) [0..<shape p ! 0])"
proof -
  define m r where "m = shape p ! 1" and "r = inner p"
  from assms(2) have two: "2 \<le> length (shape p)"
    and s: "s = p\<lparr>data := map (\<lambda>idx. exp (data p ! idx)
                  / sum_list (map (\<lambda>j. exp (at3 p (idx div (m * r)) j (idx mod r))) [0..<m]))
                  [0..<length (data p)]\<rparr>"
    by (auto simp: softmax1_def m_def r_def split: if_splits)
  have sh: "shape s = shape p" "inner s = inner p"
    by (simp_all add: s inner_def)
  have wfs: "wf_tensor s"
    using assms(1) by (simp add: s wf_tensor_def)
  from col0_at3 [OF wfs assms(3)] have m: "0 < m"
    and xs: "xs = concat (map (\<lambda>i. map (\<lambda>k. at3 s i 0 k) [0..<r]) [0..<shape p ! 0])"
    by (simp_all add: sh m_def r_def)
  have len: "length (data p) = shape p ! 0 * (m * r)"
    using assms(1) two by (simp add: wf_tensor_def prod_list_shape m_def r_def)
  have eq: "map (\<lambda>i. map (\<lambda>k. at3 s i 0 k) [0..<r]) [0..<shape p ! 0]
      = map (\<lambda>i. map (\<lambda>k. exp (at3 p i 0 k) / (\<Sum>j<m. exp (at3 p i j k))) [0..<r])
          [0..<shape p ! 0]"
  proof (intro map_cong refl)
    fix i k assume "i \<in> set [0..<shape p ! 0]" "k \<in> set [0..<r]"
    then have i: "i < shape p ! 0" and k: "k < r" by simp_all
    have "i * m * r + r \<le> length (data p)"
      using i m by (simp add: len block_bound)
    with k have idx: "i * m * r + k < length (data p)" by simp
    have "k < m * r" using k m by (cases m) simp_all
    moreover have "m * r \<noteq> 0" using k m by simp
    ultimately have "(i * (m * r) + k) div (m * r) = i"
      by simp
    then have d: "(i * m * r + k) div (m * r) = i"
      by (simp add: mult.assoc)
    have md: "(i * m * r + k) mod r = k"
      using k by simp
    have a: "at3 s i 0 k = data s ! (i * m * r + k)"
      by (simp add: at3_def sh m_def r_def)
    have b: "data s ! (i * m * r + k)
        = exp (data p ! (i * m * r + k))
          / sum_list (map (\<lambda>j. exp (at3 p ((i * m * r + k) div (m * r)) j
                                         ((i * m * r + k) mod r))) [0..<m])"
      using idx by (simp add: s)
    have c: "data p ! (i * m * r + k) = at3 p i 0 k"
      by (simp add: at3_def m_def r_def)
    show "at3 s i 0 k = exp (at3 p i 0 k) / (\<Sum>j<m. exp (at3 p i j k))"
      unfolding a b c d md by (simp add: sum_list_upt)
  qed
  show ?thesis
    unfolding xs eq using two m by (simp add: m_def r_def)
qed

lemma unpack_output_wf:
  assumes "unpack_output out = Inr (p, q)" "wf_output out"
  shows "wf_tensor p"
proof (cases out)
  case (Single t)
  with assms(1) obtain ss where sh: "shape t = 2 # ss" and p: "p = select0 t 0"
    by (cases "shape t") (auto split: if_splits)
  from assms(2) Single have "length (data t) = 2 * prod_list ss"
    by (simp add: wf_tensor_def sh)
  then show ?thesis
    by (simp add: p select0_def sh wf_tensor_def)
next
  case (Multi ts)
  with assms(1) have "ts = [p, q]"
    by (auto elim: unpack_output.elims)
  with assms(2) Multi show ?thesis by simp
qed

lemma valid_batch_values:
  assumes "valid_batch L \<theta> crit uq batch = Inr (scores, truth)"
    and "list_all wf_tensor batch"
    and "\<forall>out. model_call L False \<theta> (hd batch) = Inr out \<longrightarrow> wf_output out"
  shows "\<exists>im t0 out p. batch = [im, t0] \<and> model_call L False \<theta> im = Inr out
          \<and> (if uq then \<exists>q. unpack_output out = Inr (p, q) else out = Single p)
          \<and> truth = concat (map (\<lambda>i. map (\<lambda>k. 1 - at3 t0 i 0 k) [0..<inner t0])
                        [0..<shape t0 ! 0])
          \<and> scores = concat (map (\<lambda>i. map (\<lambda>k. 1 -
                         (if class_name crit = ''CrossEntropyLoss''
                          then exp (at3 p i 0 k) / (\<Sum>j<shape p ! 1. exp (at3 p i j k))
                          else at3 p i 0 k)) [0..<inner p]) [0..<shape p ! 0])"
proof -
  from assms(1) obtain im t0 where batch: "batch = [im, t0]"
    by (auto simp: valid_batch_def split: list.splits)
  from assms(1) obtain tc where tc: "col0 t0 = Inr tc"
    by (cases "col0 t0") (simp_all add: valid_batch_def batch)
  from assms(1) obtain out where out: "model_call L False \<theta> im = Inr out"
    by (cases "model_call L False \<theta> im") (simp_all add: valid_batch_def batch tc)
  have wfo: "wf_output out" using assms(3) out by (simp add: batch)
  have wft: "wf_tensor t0" using assms(2) by (simp add: batch)
  define pred where
    "pred = (if \<not> uq then Inr out
             else bind (unpack_output out) (\<lambda>(pred0, _). Inr (Single pred0)))"
  have vb: "valid_batch L \<theta> crit uq batch
      = bind pred (\<lambda>pred0.
          bind (case pred0 of
                  Multi _ \<Rightarrow> Inl AttributeError
                | Single p \<Rightarrow>
                    (if class_name crit = ''CrossEntropyLoss''
                     then bind (softmax1 p) col0
                     else col0 p)) (\<lambda>pred0.
          Inr (map (\<lambda>x. 1 - x) pred0, map (\<lambda>x. 1 - x) tc)))"
    by (simp add: valid_batch_def batch tc out pred_def)
  from assms(1) obtain po where po: "pred = Inr po"
    unfolding vb by (cases pred) simp_all
  from assms(1) obtain p where p: "po = Single p"
    unfolding vb po by (cases po) simp_all
  have pred: "pred = Inr (Single p)" by (simp add: po p)
  have res: "bind (if class_name crit = ''CrossEntropyLoss'' then bind (softmax1 p) col0
                    else col0 p)
                (\<lambda>pred0. Inr (map (\<lambda>x. 1 - x) pred0, map (\<lambda>x. 1 - x) tc))
              = Inr (scores, truth)"
    using assms(1) unfolding vb pred by simp
  have prim: "if uq then \<exists>q. unpack_output out = Inr (p, q) else out = Single p"
    using pred unfolding pred_def
    by (auto simp: bind_def split: if_splits sum.splits prod.splits)
  have wfp: "wf_tensor p"
  proof (cases uq)
    case True
    with prim obtain q where "unpack_output out = Inr (p, q)" by auto
    then show ?thesis using wfo by (rule unpack_output_wf)
  next
    case False
    with prim wfo show ?thesis by simp
  qed
  from res obtain pc where
    pc: "(if class_name crit = ''CrossEntropyLoss'' then bind (softmax1 p) col0 else col0 p)
         = Inr pc"
    and scores: "scores = map (\<lambda>x. 1 - x) pc" and truth: "truth = map (\<lambda>x. 1 - x) tc"
    by (auto simp: bind_def split: sum.splits)
  have t: "truth = concat (map (\<lambda>i. map (\<lambda>k. 1 - at3 t0 i 0 k) [0..<inner t0])
                        [0..<shape t0 ! 0])"
    using col0_at3 [OF wft tc] by (simp add: truth map_concat comp_def)
  have sc: "scores = concat (map (\<lambda>i. map (\<lambda>k. 1 -
                         (if class_name crit = ''CrossEntropyLoss''
                          then exp (at3 p i 0 k) / (\<Sum>j<shape p ! 1. exp (at3 p i j k))
                          else at3 p i 0 k)) [0..<inner p]) [0..<shape p ! 0])"
  proof (cases "class_name crit = ''CrossEntropyLoss''")
    case True
    with pc obtain s where "softmax1 p = Inr s" "col0 s = Inr pc"
      by (auto simp: bind_def split: sum.splits)
    from softmax1_col0 [OF wfp this] show ?thesis
      using True by (simp add: scores map_concat comp_def)
  next
    case False
    with pc have "col0 p = Inr pc" by simp
    from col0_at3 [OF wfp this] show ?thesis
      using False by (simp add: scores map_concat comp_def)
  qed
  from batch out prim t sc show ?thesis by blast
qed

lemma ex_valid_batches:
  "valid_batches ex_classifier 0 ex_ce False [[ex_im, ex_onehot]] ([], [])
   = Inr ([1 / 4, 3 / 4], [0, 1])"
proof -
  have t: "col0 ex_onehot = Inr [1, 0]"
    by (simp add: col0_def ex_onehot_def inner_def upt_rec)
  have s: "softmax1 ex_logits = Inr \<lparr>shape = [2, 2], data = [3 / 4, 1 / 4, 1 / 4, 3 / 4]\<rparr>"
    by (simp add: softmax1_def ex_logits_def inner_def at3_def upt_rec)
  have c: "col0 \<lparr>shape = [2, 2], data = [3 / 4, 1 / 4, 1 / 4, 3 / 4]\<rparr> = Inr [3 / 4, 1 / 4]"
    by (simp add: col0_def inner_def upt_rec)
  show ?thesis
    by (simp add: valid_batch_def ex_classifier_def ex_learner_def ex_ce_def t s c)
qed

lemma bind_eq_Inr: "bind x f = Inr y \<longleftrightarrow> (\<exists>v. x = Inr v \<and> f v = Inr y)"
  by (cases x) simp_all

lemma batch_loss_composition:
  assumes "batch_loss L crit uq \<theta> batch = Inr l"
  shows "\<exists>im t0 rest out target.
           batch = im # t0 # rest \<and> model_call L True \<theta> im = Inr out
         \<and> (if class_name crit = ''CrossEntropyLoss'' then argmax1 t0 = Inr target
            else target = t0)
         \<and> (if uq
            then \<exists>t1 pred0 pred_qual primary aux.
                   rest = [t1] \<and> unpack_output out = Inr (pred0, pred_qual)
                 \<and> crit_call crit (Single pred0) target = Inr primary
                 \<and> forward 2 pred_qual t1 = Inr aux
                 \<and> l = sadd primary (smul 0.2 aux)
            else rest = [] \<and> crit_call crit out target = Inr l)"
proof (cases uq)
  case False
  with assms obtain im t0 where b: "batch = [im, t0]"
    by (auto simp: batch_loss_def split: list.splits)
  from assms False obtain out where out: "model_call L True \<theta> im = Inr out"
    and l: "(if class_name crit = ''CrossEntropyLoss''
             then bind (argmax1 t0) (crit_call crit out)
             else crit_call crit out t0) = Inr l"
    by (auto simp: batch_loss_def b bind_eq_Inr)
  show ?thesis
  proof (cases "class_name crit = ''CrossEntropyLoss''")
    case True
    with l obtain target where "argmax1 t0 = Inr target" "crit_call crit out target = Inr l"
      by (auto simp: bind_eq_Inr)
    with b out True False show ?thesis by auto
  next
    case F: False
    with l b out False show ?thesis by auto
  qed
next
  case True
  with assms obtain im t0 t1 where b: "batch = [im, t0, t1]"
    by (auto simp: batch_loss_def split: list.splits)
  from assms True obtain out pred0 pred_qual primary aux where
    out: "model_call L True \<theta> im = Inr out"
    and un: "unpack_output out = Inr (pred0, pred_qual)"
    and pr: "(if class_name crit = ''CrossEntropyLoss''
              then bind (argmax1 t0) (crit_call crit (Single pred0))
              else crit_call crit (Single pred0) t0) = Inr primary"
    and aux: "forward 2 pred_qual t1 = Inr aux"
    and l: "l = sadd primary (smul 0.2 aux)"
    by (auto simp: batch_loss_def b bind_eq_Inr qal_loss_def)
  show ?thesis
  proof (cases "class_name crit = ''CrossEntropyLoss''")
    case CE: True
    with pr obtain target where
      "argmax1 t0 = Inr target" "crit_call crit (Single pred0) target = Inr primary"
      by (auto simp: bind_eq_Inr)
    with b out un aux l CE True show ?thesis by auto
  next
    case False
    with pr b out un aux l True show ?thesis by auto
  qed
qed

lemma train_epoch_take:
  assumes "train_epoch L \<theta> loader crit uq = Inr (\<theta>', losses)" "i < length loader"
  shows "\<exists>\<theta>i pre. train_epoch L \<theta> (take i loader) crit uq = Inr (\<theta>i, pre)
          \<and> batch_loss L crit uq \<theta>i (loader ! i) = Inr (losses ! i)
          \<and> train_epoch L \<theta> (take (Suc i) loader) crit uq
              = Inr (optimizer_step L (\<lambda>\<theta>'. batch_loss L crit uq \<theta>' (loader ! i)) \<theta>i,
                     pre @ [losses ! i])"
  using assms
proof (induction loader arbitrary: \<theta> i losses)
  case Nil
  then show ?case by simp
next
  case (Cons b bs)
  define \<theta>1 where "\<theta>1 = optimizer_step L (\<lambda>\<theta>'. batch_loss L crit uq \<theta>' b) \<theta>"
  from Cons.prems(1) obtain l ls where
    l: "batch_loss L crit uq \<theta> b = Inr l"
    and r: "train_epoch L \<theta>1 bs crit uq = Inr (\<theta>', ls)"
    and ls: "losses = l # ls"
    by (auto simp: \<theta>1_def split: sum.splits)
  show ?case
  proof (cases i)
    case 0
    then show ?thesis
      by (simp add: l ls \<theta>1_def)
  next
    case (Suc j)
    with Cons.prems(2) have "j < length bs" by simp
    from Cons.IH [OF r this] obtain \<theta>j pre where
      a: "train_epoch L \<theta>1 (take j bs) crit uq = Inr (\<theta>j, pre)"
      and b: "batch_loss L crit uq \<theta>j (bs ! j) = Inr (ls ! j)"
      and c: "train_epoch L \<theta>1 (take (Suc j) bs) crit uq
              = Inr (optimizer_step L (\<lambda>\<theta>'. batch_loss L crit uq \<theta>' (bs ! j)) \<theta>j,
                     pre @ [ls ! j])"
      by blast
    have "train_epoch L \<theta> (take i (b # bs)) crit uq = Inr (\<theta>j, l # pre)"
      using a by (simp add: Suc l \<theta>1_def)
    moreover have "batch_loss L crit uq \<theta>j ((b # bs) ! i) = Inr (losses ! i)"
      using b by (simp add: Suc ls)
    moreover have "train_epoch L \<theta> (take (Suc i) (b # bs)) crit uq
              = Inr (optimizer_step L (\<lambda>\<theta>'. batch_loss L crit uq \<theta>' ((b # bs) ! i)) \<theta>j,
                     (l # pre) @ [losses ! i])"
      using c by (simp add: Suc l ls \<theta>1_def del: take_Suc_Cons) (simp add: l \<theta>1_def)
    ultimately show ?thesis by blast
  qed
qed

lemma ex_argmax1: "argmax1 ex_t0 = Inr \<lparr>shape = [1], data = [1]\<rparr>"
  by (simp add: argmax1_def ex_t0_def inner_def at3_def argmax_list_def upt_rec)

lemma ex_train_epoch_ce:
  "train_epoch ex_learner \<theta> [[ex_im, ex_t0, ex_t1]] ex_ce True
   = Inr (Suc \<theta>, [Val (1 + 0.2 * focal_elem 2 0 1)])"
  by (simp add: batch_loss_def ex_learner_def ex_ce_def ex_qal_loss ex_argmax1)

section \<open>Claims about valid_epoch and train_epoch\<close>

text \<open>
  C2 (as amended). A validation run that returns, returns the result of the scoring
  callable applied to the concatenated ground-truth labels as its first argument and the
  concatenated per-example scores as its second argument: \<open>validate\<close> swaps the two, so
  the callable is invoked as (all labels, all scores).
\<close>

theorem valid_epoch_metric_arguments:
  assumes "valid_epoch L \<theta> loader sm crit uq = Inr r"
  shows "\<exists>rs. map (valid_batch L \<theta> crit uq) loader = map Inr rs
            \<and> r = sm (concat (map snd rs)) (concat (map fst rs))"
proof -
  from assms obtain preds0 true0 where
    v: "valid_batches L \<theta> crit uq loader ([], []) = Inr (preds0, true0)"
    and r: "r = sm true0 preds0"
    by (auto simp: valid_epoch_def validate_def split: sum.splits)
  from valid_batches_acc [OF v] r show ?thesis by auto
qed

theorem valid_epoch_metric_arguments_witness:
  "valid_epoch ex_learner 0 [[ex_im, ex_t0]] Pair ex_bce True = Inr ([1], [3 / 4])
   \<and> map (valid_batch ex_learner 0 ex_bce True) [[ex_im, ex_t0]] = map Inr [([3 / 4], [1])]"
  using valid_epoch_metric_arguments [of ex_learner 0 "[[ex_im, ex_t0]]" Pair ex_bce True
      "([1], [3 / 4])"]
  by (simp add: ex_valid_epoch ex_valid_batch)

text \<open>
  With the pairing function as the scoring callable, the run on one batch with scores
  \<open>[3/4]\<close> and labels \<open>[1]\<close> returns (labels, scores), not (scores, labels).
\<close>

theorem valid_epoch_metric_arguments_counterexample:
  "valid_batch ex_learner 0 ex_bce True [ex_im, ex_t0] = Inr ([3 / 4], [1])
   \<and> valid_epoch ex_learner 0 [[ex_im, ex_t0]] Pair ex_bce True \<noteq> Inr (Pair [3 / 4] [1])"
  by (simp add: ex_valid_epoch ex_valid_batch)

lemma valid_batches_values:
  fixes L :: "'m learner"
  defines "inverted \<equiv> \<lambda>v t. concat (map (\<lambda>i. map (\<lambda>k. 1 - v t i k) [0..<inner t])
                                    [0..<shape t ! 0])"
  defines "class0 \<equiv> \<lambda>t i k. at3 t i 0 k"
  defines "softmax0 \<equiv> \<lambda>t i k. exp (at3 t i 0 k) / (\<Sum>j<shape t ! 1. exp (at3 t i j k))"
  assumes "valid_batches L \<theta> crit uq loader ([], []) = Inr (preds0, true0)"
    and "\<forall>batch\<in>set loader. list_all wf_tensor batch
           \<and> (\<forall>out. model_call L False \<theta> (hd batch) = Inr out \<longrightarrow> wf_output out)"
  shows "\<exists>rs. length rs = length loader
          \<and> preds0 = concat (map fst rs) \<and> true0 = concat (map snd rs)
          \<and> (\<forall>i<length loader. \<exists>im t0 out p.
                loader ! i = [im, t0] \<and> model_call L False \<theta> im = Inr out
              \<and> (if uq then \<exists>q. unpack_output out = Inr (p, q) else out = Single p)
              \<and> snd (rs ! i) = inverted class0 t0
              \<and> fst (rs ! i) = inverted (if class_name crit = ''CrossEntropyLoss''
                                         then softmax0 else class0) p)"
proof -
  from valid_batches_acc [OF assms(4)] obtain rs where
    rs: "map (valid_batch L \<theta> crit uq) loader = map Inr rs"
    and c: "preds0 = concat (map fst rs)" "true0 = concat (map snd rs)"
    by auto
  from rs have len: "length rs = length loader"
    using length_map [of "valid_batch L \<theta> crit uq" loader] by simp
  have "\<exists>im t0 out p.
                loader ! i = [im, t0] \<and> model_call L False \<theta> im = Inr out
              \<and> (if uq then \<exists>q. unpack_output out = Inr (p, q) else out = Single p)
              \<and> snd (rs ! i) = inverted class0 t0
              \<and> fst (rs ! i) = inverted (if class_name crit = ''CrossEntropyLoss''
                                         then softmax0 else class0) p"
    if i: "i < length loader" for i
  proof -
    have "map (valid_batch L \<theta> crit uq) loader ! i = map Inr rs ! i"
      by (simp only: rs)
    then have vb: "valid_batch L \<theta> crit uq (loader ! i) = Inr (fst (rs ! i), snd (rs ! i))"
      using i len by simp
    have "loader ! i \<in> set loader" using i by simp
    with assms(5) have wf: "list_all wf_tensor (loader ! i)"
      "\<forall>out. model_call L False \<theta> (hd (loader ! i)) = Inr out \<longrightarrow> wf_output out"
      by blast+
    from valid_batch_values [OF vb wf] show ?thesis
      unfolding inverted_def class0_def softmax0_def
      by (auto split: if_splits)
  qed
  with len c show ?thesis by blast
qed

text \<open>
  C6. A validation pass over well-formed tensors that returns, returns the scoring callable
  applied to the ground truth and the scores of all batches concatenated, where for every
  batch each derived ground-truth value is 1 minus the class-0 component of the label and
  each derived score is 1 minus the class-0 component of the prediction, softmaxed over
  dimension 1 when the criterion is the categorical cross-entropy: the same inversion on
  both.
\<close>

theorem valid_epoch_inverts_class0:
  fixes L :: "'m learner"
  defines "inverted \<equiv> \<lambda>v t. concat (map (\<lambda>i. map (\<lambda>k. 1 - v t i k) [0..<inner t])
                                    [0..<shape t ! 0])"
  defines "class0 \<equiv> \<lambda>t i k. at3 t i 0 k"
  defines "softmax0 \<equiv> \<lambda>t i k. exp (at3 t i 0 k) / (\<Sum>j<shape t ! 1. exp (at3 t i j k))"
  assumes "valid_epoch L \<theta> loader sm crit uq = Inr r"
    and "\<forall>batch\<in>set loader. list_all wf_tensor batch
           \<and> (\<forall>out. model_call L False \<theta> (hd batch) = Inr out \<longrightarrow> wf_output out)"
  shows "\<exists>rs. length rs = length loader
          \<and> r = sm (concat (map snd rs)) (concat (map fst rs))
          \<and> (\<forall>i<length loader. \<exists>im t0 out p.
                loader ! i = [im, t0] \<and> model_call L False \<theta> im = Inr out
              \<and> (if uq then \<exists>q. unpack_output out = Inr (p, q) else out = Single p)
              \<and> snd (rs ! i) = inverted class0 t0
              \<and> fst (rs ! i) = inverted (if class_name crit = ''CrossEntropyLoss''
                                         then softmax0 else class0) p)"
proof -
  from assms(4) obtain preds0 true0 where
    v: "valid_batches L \<theta> crit uq loader ([], []) = Inr (preds0, true0)"
    and r: "r = sm true0 preds0"
    by (auto simp: valid_epoch_def validate_def split: sum.splits)
  from valid_batches_values [OF v assms(5)] r show ?thesis
    unfolding inverted_def class0_def softmax0_def by blast
qed

text \<open>
  The one-hot labels \<open>[1, 0]\<close> and \<open>[0, 1]\<close> give the ground truth 0 and 1, and the
  callable (here the pairing function) receives them with the scores \<open>1/4\<close> and
  \<open>3/4\<close>.
\<close>

theorem valid_epoch_inverts_class0_witness:
  "valid_epoch ex_classifier 0 [[ex_im, ex_onehot]] Pair ex_ce False
     = Inr ([0, 1], [1 / 4, 3 / 4])
   \<and> list_all wf_tensor [ex_im, ex_onehot] \<and> wf_output (Single ex_logits)
   \<and> data ex_onehot = [1, 0, 0, 1]"
proof -
  have a: "valid_epoch ex_classifier 0 [[ex_im, ex_onehot]] Pair ex_ce False
     = Inr ([0, 1], [1 / 4, 3 / 4])"
    by (simp add: valid_epoch_def validate_def ex_valid_batches del: valid_batches.simps)
  have b: "list_all wf_tensor [ex_im, ex_onehot]"
    by (simp add: wf_tensor_def ex_im_def ex_onehot_def)
  have c: "wf_output (Single ex_logits)"
    by (simp add: wf_tensor_def ex_logits_def)
  have d: "data ex_onehot = [1, 0, 0, 1]"
    by (simp add: ex_onehot_def)
  have hyp: "\<forall>batch\<in>set [[ex_im, ex_onehot]]. list_all wf_tensor batch
           \<and> (\<forall>out. model_call ex_classifier False 0 (hd batch) = Inr out \<longrightarrow> wf_output out)"
    using b c by (auto simp: ex_classifier_def)
  from valid_epoch_inverts_class0 [OF a hyp] a b c d
  show ?thesis by blast
qed

text \<open>
  C3. For every batch of a training pass, the loss that is back-propagated (the one the
  optimizer step is taken on) is the criterion applied to the prediction and the label,
  where the label is replaced by its argmax over dimension 1 when the criterion's class is
  \<open>CrossEntropyLoss\<close> and passed as it is otherwise; with \<open>use_qual\<close>, it is this
  primary loss plus 0.2 times the focal loss (gamma 2) of the quality prediction against
  the quality label. The model is called with the state reached after the earlier batches.
\<close>

theorem train_epoch_loss_composition:
  assumes "train_epoch L \<theta> loader crit uq = Inr (\<theta>', losses)" "i < length loader"
  shows "\<exists>\<theta>i pre im t0 rest out target.
           train_epoch L \<theta> (take i loader) crit uq = Inr (\<theta>i, pre)
         \<and> train_epoch L \<theta> (take (Suc i) loader) crit uq
             = Inr (optimizer_step L (\<lambda>\<theta>'. batch_loss L crit uq \<theta>' (loader ! i)) \<theta>i,
                    pre @ [losses ! i])
         \<and> batch_loss L crit uq \<theta>i (loader ! i) = Inr (losses ! i)
         \<and> loader ! i = im # t0 # rest \<and> model_call L True \<theta>i im = Inr out
         \<and> (if class_name crit = ''CrossEntropyLoss'' then argmax1 t0 = Inr target
            else target = t0)
         \<and> (if uq
            then \<exists>t1 pred0 pred_qual primary aux.
                   rest = [t1] \<and> unpack_output out = Inr (pred0, pred_qual)
                 \<and> crit_call crit (Single pred0) target = Inr primary
                 \<and> forward 2 pred_qual t1 = Inr aux
                 \<and> losses ! i = sadd primary (smul 0.2 aux)
            else rest = [] \<and> crit_call crit out target = Inr (losses ! i))"
proof -
  from train_epoch_take [OF assms] obtain \<theta>i pre where
    a: "train_epoch L \<theta> (take i loader) crit uq = Inr (\<theta>i, pre)"
    and b: "batch_loss L crit uq \<theta>i (loader ! i) = Inr (losses ! i)"
    and c: "train_epoch L \<theta> (take (Suc i) loader) crit uq
              = Inr (optimizer_step L (\<lambda>\<theta>'. batch_loss L crit uq \<theta>' (loader ! i)) \<theta>i,
                     pre @ [losses ! i])"
    by blast
  from batch_loss_composition [OF b] a b c show ?thesis by blast
qed

theorem train_epoch_loss_composition_witness:
  "train_epoch ex_learner 0 [[ex_im, ex_t0, ex_t1]] ex_ce True
     = Inr (Suc 0, [Val (1 + 0.2 * focal_elem 2 0 1)])
   \<and> class_name ex_ce = ''CrossEntropyLoss''
   \<and> argmax1 ex_t0 = Inr \<lparr>shape = [1], data = [1]\<rparr>
   \<and> crit_call ex_ce (Single ex_pred) \<lparr>shape = [1], data = [1]\<rparr> = Inr (Val 1)
   \<and> forward 2 ex_qual ex_t1 = Inr (Val (focal_elem 2 0 1))"
proof -
  have i: "0 < length [[ex_im, ex_t0, ex_t1]]" by simp
  have "class_name ex_ce = ''CrossEntropyLoss''"
    "crit_call ex_ce (Single ex_pred) \<lparr>shape = [1], data = [1]\<rparr> = Inr (Val 1)"
    by (simp_all add: ex_ce_def)
  moreover have "forward 2 ex_qual ex_t1 = Inr (Val (focal_elem 2 0 1))"
    using ex_qal_loss by (simp add: qal_loss_def)
  ultimately show ?thesis
    using train_epoch_loss_composition [OF ex_train_epoch_ce i] ex_train_epoch_ce ex_argmax1
    by blast
qed

end
